theory Spec2Isabelle
  imports Main
begin

section \<open>Errors and platform behaviour\<close>

text \<open>
  Every asynchronous platform call of the sources may reject, and \<^verbatim>\<open>toISOString\<close> throws
  a RangeError on an Invalid Date. A rejection or throw is a value of type \<open>error\<close>; an
  operation returns \<open>(error + 'a) \<times> state\<close>, since a call that throws half way has
  still changed the device's state.
\<close>

datatype error = StorageError | CancelError | ScheduleError | ChannelError
  | FileError | NetworkError | PlayerError | RangeError

text \<open>
  What the device contributes to the operations of \<^verbatim>\<open>services/notifications.ts\<close> is a
  record that is passed to each of them: which platform calls reject, and the time zone.
  The time zone is the function \<^verbatim>\<open>LocalTZA(t, isUTC)\<close> of the language specification:
  \<open>tzaOfUTC t\<close> is the offset of local time from UTC at the UTC instant \<open>t\<close>, and
  \<open>tzaOfLocal t\<close> is the offset with which the local time value \<open>t\<close> is read (at a
  repeated or skipped local hour, the offset before the transition). Platform
  notification identifiers are opaque strings in the source; here they are the natural
  numbers handed out by the registry's counter.
\<close>

record platform =
  storageReadFails :: bool
  storageWriteFails :: bool
  cancelFails :: "nat \<Rightarrow> bool"
  scheduleFails :: "nat \<Rightarrow> bool"
  channelFails :: bool
  tzaOfUTC :: "int \<Rightarrow> int"
  tzaOfLocal :: "int \<Rightarrow> int"

section \<open>Dates\<close>

text \<open>
  A valid \<^verbatim>\<open>Date\<close> is its time value, the number of milliseconds since the epoch, at
  most 8.64e15 in absolute value; \<open>None\<close> is the Invalid Date. \<open>TimeClip\<close>, \<open>LocalTime\<close>
  and \<open>UTC\<close> are the abstract operations of the language specification with these names.
\<close>

definition DAY :: int where
  "DAY = 86400000"

definition TimeClip :: "int \<Rightarrow> int option" where
  "TimeClip t = (if \<bar>t\<bar> \<le> 8640000000000000 then Some t else None)"

definition LocalTime :: "platform \<Rightarrow> int \<Rightarrow> int" where
  "LocalTime P t = t + tzaOfUTC P t"

definition UTC :: "platform \<Rightarrow> int \<Rightarrow> int" where
  "UTC P t = t - tzaOfLocal P t"

text \<open>
  \<^verbatim>\<open>d.setDate(d.getDate() + 1)\<close> on a valid date: the local time value one day later
  (\<^verbatim>\<open>MakeDay\<close> carries the day of the month into the next month), read back as UTC and
  clipped.
\<close>

definition setDatePlus1 :: "platform \<Rightarrow> int \<Rightarrow> int option" where
  "setDatePlus1 P d = TimeClip (UTC P (LocalTime P d + DAY))"

text \<open>
  \<^verbatim>\<open>d.setMinutes(d.getMinutes() + m)\<close> on a valid date, for a whole number \<open>m\<close> of minutes
  (the callers pass 1): \<^verbatim>\<open>MakeTime\<close> carries the minutes into the hours and days.
\<close>

definition setMinutesPlus :: "platform \<Rightarrow> int \<Rightarrow> int \<Rightarrow> int option" where
  "setMinutesPlus P d m = TimeClip (UTC P (LocalTime P d + m * 60000))"

text \<open>Local wall-clock time and local calendar day of an instant.\<close>

definition wallClock :: "platform \<Rightarrow> int \<Rightarrow> int" where
  "wallClock P d = LocalTime P d mod DAY"

definition calendarDay :: "platform \<Rightarrow> int \<Rightarrow> int" where
  "calendarDay P d = LocalTime P d div DAY"

text \<open>
  \<^verbatim>\<open>toISOString()\<close> of a valid date: \<^verbatim>\<open>YYYY-MM-DDTHH:mm:ss.sssZ\<close> in UTC, the year
  written with four digits from 0 to 9999 and with a sign and six digits otherwise. The
  year, month and day of a day number are those of the proleptic Gregorian calendar,
  computed by eras of 400 years that start on 1 March.
\<close>

definition digit :: "nat \<Rightarrow> char" where
  "digit n = ''0123456789'' ! (n mod 10)"

primrec pad :: "nat \<Rightarrow> nat \<Rightarrow> string" where
  "pad 0 n = []"
| "pad (Suc k) n = pad k (n div 10) @ [digit n]"

definition civil :: "int \<Rightarrow> int \<times> nat \<times> nat" where
  "civil z0 =
     (let z = z0 + 719468;
          era = z div 146097;
          doe = z mod 146097;
          yoe = (doe - doe div 1460 + doe div 36524 - doe div 146096) div 365;
          doy = doe - (365 * yoe + yoe div 4 - yoe div 100);
          mp = (5 * doy + 2) div 153;
          d = doy - (153 * mp + 2) div 5 + 1;
          m = (if mp < 10 then mp + 3 else mp - 9);
          y = yoe + era * 400 + (if m \<le> 2 then 1 else 0)
      in (y, nat m, nat d))"

definition yearString :: "int \<Rightarrow> string" where
  "yearString y =
     (if 0 \<le> y \<and> y \<le> 9999 then pad 4 (nat y)
      else (if y < 0 then ''-'' else ''+'') @ pad 6 (nat \<bar>y\<bar>))"

definition isoString :: "int \<Rightarrow> string" where
  "isoString t =
     (case civil (t div DAY) of
        (y, m, d) \<Rightarrow>
          (let ms = nat (t mod DAY) in
           yearString y @ ''-'' @ pad 2 m @ ''-'' @ pad 2 d @ ''T''
             @ pad 2 (ms div 3600000) @ '':'' @ pad 2 (ms div 60000 mod 60) @ '':''
             @ pad 2 (ms div 1000 mod 60) @ ''.'' @ pad 3 (ms mod 1000) @ ''Z''))"

definition toISOString :: "int option \<Rightarrow> error + string" where
  "toISOString d = (case d of None \<Rightarrow> Inl RangeError | Some t \<Rightarrow> Inr (isoString t))"

section \<open>services/notifications.ts\<close>

record alarm =
  aid :: nat
  idTag :: string
  title :: string
  body :: string
  date :: int
  voicePath :: "string option"

text \<open>
  The device as the notification service sees it: the value stored in AsyncStorage under
  \<^verbatim>\<open>SCHEDULED_ADHAN_IDS\<close> (\<open>None\<close> when the key is absent, otherwise the parsed JSON
  array), the platform's registry of pending notifications, the registry's identifier
  counter, and the clock. The clock readings of one call are taken to be one instant
  \<open>now\<close>.
\<close>

record nworld =
  scheduledIds :: "nat list option"
  registry :: "alarm list"
  nextId :: nat
  now :: int

text \<open>\<^verbatim>\<open>raw ? JSON.parse(raw) : []\<close>\<close>

definition parseIds :: "nat list option \<Rightarrow> nat list" where
  "parseIds raw = (case raw of None \<Rightarrow> [] | Some arr \<Rightarrow> arr)"

text \<open>\<^verbatim>\<open>ensureNotificationChannel\<close>: creating the Android channel touches none of the state above.\<close>

definition ensureNotificationChannel :: "platform \<Rightarrow> nworld \<Rightarrow> (error + unit) \<times> nworld" where
  "ensureNotificationChannel P w = (if channelFails P then (Inl ChannelError, w) else (Inr (), w))"

text \<open>\<^verbatim>\<open>Notifications.scheduleNotificationAsync\<close>\<close>

definition scheduleNotificationAsync ::
  "platform \<Rightarrow> string \<Rightarrow> string \<Rightarrow> string \<Rightarrow> int \<Rightarrow> string option \<Rightarrow> nworld \<Rightarrow> (error + nat) \<times> nworld" where
  "scheduleNotificationAsync P tg ti bo d vp w =
     (if scheduleFails P (nextId w) then (Inl ScheduleError, w)
      else (Inr (nextId w),
            w\<lparr>registry := registry w @
                 [\<lparr>aid = nextId w, idTag = tg, title = ti, body = bo, date = d, voicePath = vp\<rparr>],
              nextId := Suc (nextId w)\<rparr>))"

text \<open>\<^verbatim>\<open>Notifications.cancelScheduledNotificationAsync\<close>\<close>

definition cancelScheduledNotificationAsync :: "platform \<Rightarrow> nat \<Rightarrow> nworld \<Rightarrow> (error + unit) \<times> nworld" where
  "cancelScheduledNotificationAsync P i w =
     (if cancelFails P i then (Inl CancelError, w)
      else (Inr (), w\<lparr>registry := filter (\<lambda>a. aid a \<noteq> i) (registry w)\<rparr>))"

text \<open>
  \<^verbatim>\<open>scheduleNotificationForPrayer\<close>: the registration may throw; the persistence of the
  new id is wrapped in a try/catch that ignores storage errors.
\<close>

definition persistId :: "platform \<Rightarrow> nat \<Rightarrow> nworld \<Rightarrow> nworld" where
  "persistId P i w =
     (if storageReadFails P then w
      else if storageWriteFails P then w
      else w\<lparr>scheduledIds := Some (parseIds (scheduledIds w) @ [i])\<rparr>)"

definition scheduleNotificationForPrayer ::
  "platform \<Rightarrow> string \<Rightarrow> string \<Rightarrow> string \<Rightarrow> int \<Rightarrow> string option \<Rightarrow> nworld \<Rightarrow> (error + nat) \<times> nworld" where
  "scheduleNotificationForPrayer P tg ti bo d vp w =
     (case scheduleNotificationAsync P tg ti bo d vp w of
        (Inl e, w1) \<Rightarrow> (Inl e, w1)
      | (Inr i, w1) \<Rightarrow> (Inr i, persistId P i w1))"

text \<open>
  \<^verbatim>\<open>Promise.all(arr.map((id) => Notifications.cancelScheduledNotificationAsync(id)))\<close>:
  every cancellation is started; the combined promise rejects when one of them does.
  The flag returned is whether all of them succeeded.
\<close>

fun cancelEach :: "platform \<Rightarrow> nat list \<Rightarrow> nworld \<Rightarrow> bool \<times> nworld" where
  "cancelEach P [] w = (True, w)"
| "cancelEach P (i # is) w =
     (case cancelScheduledNotificationAsync P i w of
        (r, w1) \<Rightarrow> (case cancelEach P is w1 of (ok, w2) \<Rightarrow> (isl r = False \<and> ok, w2)))"

text \<open>The body of the try block of \<^verbatim>\<open>cancelAllScheduledNotifications\<close>.\<close>

definition cancelAllBody :: "platform \<Rightarrow> nworld \<Rightarrow> (error + unit) \<times> nworld" where
  "cancelAllBody P w =
     (if storageReadFails P then (Inl StorageError, w)
      else case cancelEach P (parseIds (scheduledIds w)) w of
        (ok, w1) \<Rightarrow>
          if \<not> ok then (Inl CancelError, w1)
          else if storageWriteFails P then (Inl StorageError, w1)
          else (Inr (), w1\<lparr>scheduledIds := None\<rparr>))"

text \<open>\<^verbatim>\<open>try { ... } catch (e) { /* ignore */ }\<close>\<close>

definition cancelAllScheduledNotifications :: "platform \<Rightarrow> nworld \<Rightarrow> (error + unit) \<times> nworld" where
  "cancelAllScheduledNotifications P w =
     (case cancelAllBody P w of (Inl e, w1) \<Rightarrow> (Inr (), w1) | (Inr u, w1) \<Rightarrow> (Inr u, w1))"

text \<open>
  The date that one iteration of the loop of \<^verbatim>\<open>scheduleDailyPrayerNotifications\<close>
  computes: \<^verbatim>\<open>let scheduledDate = new Date(dt); if (scheduledDate <= now)
  scheduledDate.setDate(scheduledDate.getDate() + 1);\<close>. An entry that is not a time value
  of the Date range stands for an Invalid Date, which compares false and stays invalid.
\<close>

definition rollDate :: "platform \<Rightarrow> int \<Rightarrow> int \<Rightarrow> int option" where
  "rollDate P nw dt =
     (case TimeClip dt of
        None \<Rightarrow> None
      | Some d \<Rightarrow> if d \<le> nw then setDatePlus1 P d else Some d)"

text \<open>
  The loop over \<^verbatim>\<open>Object.entries(prayerTimesMap)\<close>. The tag
  \<^verbatim>\<open>`${name}-${scheduledDate.toISOString().slice(0, 10)}`\<close> is computed before the
  notification is registered, so an Invalid Date ends the loop with a RangeError.
\<close>

fun scheduleLoop ::
  "platform \<Rightarrow> (string \<times> int) list \<Rightarrow> string option \<Rightarrow> nat list \<Rightarrow> nworld \<Rightarrow> (error + nat list) \<times> nworld" where
  "scheduleLoop P [] vp scheduled w = (Inr scheduled, w)"
| "scheduleLoop P ((name, dt) # es) vp scheduled w =
     (case rollDate P (now w) dt of
        None \<Rightarrow> (Inl RangeError, w)
      | Some scheduledDate \<Rightarrow>
          (case scheduleNotificationForPrayer P
                  (name @ ''-'' @ take 10 (isoString scheduledDate))
                  (name @ '' prayer time'')
                  (''It's time for '' @ name @ '' prayer'')
                  scheduledDate vp w of
             (Inl e, w1) \<Rightarrow> (Inl e, w1)
           | (Inr i, w1) \<Rightarrow> scheduleLoop P es vp (scheduled @ [i]) w1))"

definition scheduleDailyPrayerNotifications ::
  "platform \<Rightarrow> (string \<times> int) list \<Rightarrow> string option \<Rightarrow> nworld \<Rightarrow> (error + nat list) \<times> nworld" where
  "scheduleDailyPrayerNotifications P prayerTimesMap vp w =
     (case cancelAllScheduledNotifications P w of
        (_, w1) \<Rightarrow>
          (case ensureNotificationChannel P w1 of
             (Inl e, w2) \<Rightarrow> (Inl e, w2)
           | (Inr _, w2) \<Rightarrow> scheduleLoop P prayerTimesMap vp [] w2))"

text \<open>
  \<^verbatim>\<open>scheduleTestNotification(minutesFromNow = 1, voicePath)\<close>: the tag
  \<^verbatim>\<open>`test-${date.toISOString()}`\<close> is computed before the notification is registered.
\<close>

definition scheduleTestNotification ::
  "platform \<Rightarrow> int \<Rightarrow> string option \<Rightarrow> nworld \<Rightarrow> (error + nat \<times> int) \<times> nworld" where
  "scheduleTestNotification P minutesFromNow vp w =
     (case ensureNotificationChannel P w of
        (Inl e, w1) \<Rightarrow> (Inl e, w1)
      | (Inr _, w1) \<Rightarrow>
          (case setMinutesPlus P (now w1) minutesFromNow of
             None \<Rightarrow> (Inl RangeError, w1)
           | Some d \<Rightarrow>
               (case scheduleNotificationForPrayer P (''test-'' @ isoString d) ''Test Adhan''
                       ''This notification will play the active adhan voice when received.''
                       d vp w1 of
                  (Inl e, w2) \<Rightarrow> (Inl e, w2)
                | (Inr i, w2) \<Rightarrow> (Inr (i, d), w2))))"

text \<open>\<^verbatim>\<open>services/prayerTimes.ts\<close>: the map of the six instants, in the order of its keys.\<close>

record PrayerTimesMap =
  fajr :: int
  sunrise :: int
  dhuhr :: int
  asr :: int
  maghrib :: int
  isha :: int

definition entries :: "PrayerTimesMap \<Rightarrow> (string \<times> int) list" where
  "entries m = [(''fajr'', fajr m), (''sunrise'', sunrise m), (''dhuhr'', dhuhr m),
                (''asr'', asr m), (''maghrib'', maghrib m), (''isha'', isha m)]"

text \<open>A platform on which no call rejects.\<close>

definition reliable :: "platform \<Rightarrow> bool" where
  "reliable P \<longleftrightarrow> \<not> storageReadFails P \<and> \<not> storageWriteFails P \<and> \<not> channelFails P
     \<and> (\<forall>i. \<not> cancelFails P i) \<and> (\<forall>i. \<not> scheduleFails P i)"

text \<open>Every date that the loop computes for the entries is a valid Date.\<close>

definition validDates :: "platform \<Rightarrow> int \<Rightarrow> (string \<times> int) list \<Rightarrow> bool" where
  "validDates P nw es \<longleftrightarrow> list_all (\<lambda>e. rollDate P nw (snd e) \<noteq> None) es"

text \<open>A time zone whose offset from UTC never changes.\<close>

definition fixedOffset :: "platform \<Rightarrow> int \<Rightarrow> bool" where
  "fixedOffset P c \<longleftrightarrow> (\<forall>t. tzaOfUTC P t = c \<and> tzaOfLocal P t = c)"

text \<open>Every pending notification is tracked by the persisted id list.\<close>

definition tracked :: "nworld \<Rightarrow> bool" where
  "tracked w \<longleftrightarrow> list_all (\<lambda>a. aid a \<in> set (parseIds (scheduledIds w))) (registry w)"

text \<open>
  Names for the notification that one iteration of the loop registers for the entry
  \<open>name\<close> at the date \<open>d\<close>, and for the ones that a whole loop registers.
\<close>

definition dailyAlarm :: "string option \<Rightarrow> nat \<Rightarrow> string \<Rightarrow> int \<Rightarrow> alarm" where
  "dailyAlarm vp i name d =
     \<lparr>aid = i, idTag = name @ ''-'' @ take 10 (isoString d),
      title = name @ '' prayer time'', body = ''It's time for '' @ name @ '' prayer'',
      date = d, voicePath = vp\<rparr>"

definition newAlarms :: "platform \<Rightarrow> int \<Rightarrow> string option \<Rightarrow> nat list \<Rightarrow> (string \<times> int) list \<Rightarrow> alarm list" where
  "newAlarms P nw vp ids es =
     map2 (\<lambda>i e. dailyAlarm vp i (fst e) (the (rollDate P nw (snd e)))) ids es"

text \<open>
  Sample platforms: UTC with no call rejecting; the same with the cancellation of id 0
  rejecting; the same with every storage write rejecting; and a zone with the two
  changes of offset of the eastern United States in 2024 (from 5 to 4 hours behind UTC on
  10 March at 07:00 UTC, back on 3 November at 06:00 UTC).
\<close>

definition okPlatform :: platform where
  "okPlatform = \<lparr>storageReadFails = False, storageWriteFails = False,
     cancelFails = (\<lambda>_. False), scheduleFails = (\<lambda>_. False), channelFails = False,
     tzaOfUTC = (\<lambda>_. 0), tzaOfLocal = (\<lambda>_. 0)\<rparr>"

definition failFirst :: platform where
  "failFirst = okPlatform\<lparr>cancelFails := (\<lambda>i. i = 0)\<rparr>"

definition writeRejects :: platform where
  "writeRejects = okPlatform\<lparr>storageWriteFails := True\<rparr>"

definition eastern2024 :: platform where
  "eastern2024 = okPlatform
     \<lparr>tzaOfUTC := (\<lambda>t. if t < 1710054000000 then - 18000000
                       else if t < 1730613600000 then - 14400000 else - 18000000),
      tzaOfLocal := (\<lambda>t. if t < 1710039600000 then - 18000000
                         else if t < 1730599200000 then - 14400000 else - 18000000)\<rparr>"

text \<open>Sample devices and instants.\<close>

definition emptyWorld :: nworld where
  "emptyWorld = \<lparr>scheduledIds = None, registry = [], nextId = 0, now = 0\<rparr>"

definition times0 :: PrayerTimesMap where
  "times0 = \<lparr>fajr = 1000, sunrise = 2000, dhuhr = 3000, asr = 4000, maghrib = 5000, isha = 6000\<rparr>"

definition lateWorld :: nworld where
  "lateWorld = emptyWorld\<lparr>now := 200000000\<rparr>"

definition middayWorld :: nworld where
  "middayWorld = emptyWorld\<lparr>now := 3500\<rparr>"

text \<open>A device on which one daily run has succeeded.\<close>

definition scheduledWorld :: nworld where
  "scheduledWorld = snd (scheduleDailyPrayerNotifications okPlatform (entries times0) None emptyWorld)"

text \<open>
  A device on which a test notification was registered while the storage write rejected:
  the call returned normally and the notification is pending, but its id was not persisted.
\<close>

definition untrackedWorld :: nworld where
  "untrackedWorld = snd (scheduleTestNotification writeRejects 1 None emptyWorld)"

text \<open>
  The day the clocks go forward in the sample zone: instants of 9 March 2024, and a device
  at 16:30 UTC on 10 March; and the repeated hour of 3 November: a device at 06:30 UTC,
  01:30 local time for the second time.
\<close>

definition marchTimes :: PrayerTimesMap where
  "marchTimes = \<lparr>fajr = 1710003600000, sunrise = 1710004000000, dhuhr = 1710005000000,
     asr = 1710006000000, maghrib = 1710007000000, isha = 1710008000000\<rparr>"

definition marchWorld :: nworld where
  "marchWorld = emptyWorld\<lparr>now := 1710088200000\<rparr>"

definition novemberWorld :: nworld where
  "novemberWorld = emptyWorld\<lparr>now := 1730615400000\<rparr>"


section \<open>services/adhanVoices.ts and components/AdhanVoiceSelector.tsx\<close>

datatype voiceType = Regular | Fajr

text \<open>\<^verbatim>\<open>AdhanVoice\<close>, without its optional display fields \<^verbatim>\<open>duration\<close> and \<^verbatim>\<open>origin\<close>.\<close>

record AdhanVoice =
  v_id :: string
  v_name :: string
  v_reciter :: string
  v_type :: voiceType
  v_previewUrl :: string
  v_downloadUrl :: string

definition ADHAN_VOICES :: "AdhanVoice list" where
  "ADHAN_VOICES =
    [\<lparr>v_id = ''makkah-regular'', v_name = ''Makkah Adhan'', v_reciter = ''Sheikh Ali Ahmed Mullah'', v_type = Regular,
      v_previewUrl = ''https://www.islamcan.com/audio/adhan/azan1.mp3'',
      v_downloadUrl = ''https://www.islamcan.com/audio/adhan/azan1.mp3''\<rparr>,
     \<lparr>v_id = ''madinah-regular'', v_name = ''Madinah Adhan'', v_reciter = ''Sheikh Essam Bukhari'', v_type = Regular,
      v_previewUrl = ''https://www.islamcan.com/audio/adhan/azan2.mp3'',
      v_downloadUrl = ''https://www.islamcan.com/audio/adhan/azan2.mp3''\<rparr>,
     \<lparr>v_id = ''mishary-regular'', v_name = ''Mishary Rashid Adhan'', v_reciter = ''Mishary Rashid Alafasy'', v_type = Regular,
      v_previewUrl = ''https://www.islamcan.com/audio/adhan/azan3.mp3'',
      v_downloadUrl = ''https://www.islamcan.com/audio/adhan/azan3.mp3''\<rparr>,
     \<lparr>v_id = ''abdul-basit-regular'', v_name = ''Abdul Basit Adhan'', v_reciter = ''Sheikh Abdul Basit'', v_type = Regular,
      v_previewUrl = ''https://www.islamcan.com/audio/adhan/azan4.mp3'',
      v_downloadUrl = ''https://www.islamcan.com/audio/adhan/azan4.mp3''\<rparr>,
     \<lparr>v_id = ''egypt-regular'', v_name = ''Egyptian Adhan'', v_reciter = ''Al-Azhar Mosque'', v_type = Regular,
      v_previewUrl = ''https://www.islamcan.com/audio/adhan/azan5.mp3'',
      v_downloadUrl = ''https://www.islamcan.com/audio/adhan/azan5.mp3''\<rparr>,
     \<lparr>v_id = ''turkish-regular'', v_name = ''Turkish Adhan'', v_reciter = ''Turkish Style'', v_type = Regular,
      v_previewUrl = ''https://www.islamcan.com/audio/adhan/azan6.mp3'',
      v_downloadUrl = ''https://www.islamcan.com/audio/adhan/azan6.mp3''\<rparr>,
     \<lparr>v_id = ''makkah-fajr'', v_name = ''Makkah Fajr Adhan'', v_reciter = ''Sheikh Ali Ahmed Mullah'', v_type = Fajr,
      v_previewUrl = ''https://www.islamcan.com/audio/adhan/azan7.mp3'',
      v_downloadUrl = ''https://www.islamcan.com/audio/adhan/azan7.mp3''\<rparr>,
     \<lparr>v_id = ''madinah-fajr'', v_name = ''Madinah Fajr Adhan'', v_reciter = ''Sheikh Essam Bukhari'', v_type = Fajr,
      v_previewUrl = ''https://www.islamcan.com/audio/adhan/azan8.mp3'',
      v_downloadUrl = ''https://www.islamcan.com/audio/adhan/azan8.mp3''\<rparr>,
     \<lparr>v_id = ''mishary-fajr'', v_name = ''Mishary Fajr Adhan'', v_reciter = ''Mishary Rashid Alafasy'', v_type = Fajr,
      v_previewUrl = ''https://www.islamcan.com/audio/adhan/azan9.mp3'',
      v_downloadUrl = ''https://www.islamcan.com/audio/adhan/azan9.mp3''\<rparr>,
     \<lparr>v_id = ''abdul-basit-fajr'', v_name = ''Abdul Basit Fajr'', v_reciter = ''Sheikh Abdul Basit'', v_type = Fajr,
      v_previewUrl = ''https://www.islamcan.com/audio/adhan/azan10.mp3'',
      v_downloadUrl = ''https://www.islamcan.com/audio/adhan/azan10.mp3''\<rparr>]"

definition getAdhanVoiceById :: "string \<Rightarrow> AdhanVoice option" where
  "getAdhanVoiceById i = List.find (\<lambda>v. v_id v = i) ADHAN_VOICES"

text \<open>
  What the selector's helpers read: the two selections in AsyncStorage
  (\<^verbatim>\<open>SELECTED_REGULAR_ADHAN\<close>, \<^verbatim>\<open>SELECTED_FAJR_ADHAN\<close>), the files that exist, the
  document directory, and whether \<^verbatim>\<open>AsyncStorage.getItem\<close> and
  \<^verbatim>\<open>FileSystem.getInfoAsync\<close> reject.
\<close>

record selector =
  selectedRegular :: "string option"
  selectedFajr :: "string option"
  adhanFiles :: "string set"
  documentDirectory :: string
  getItemFails :: bool
  getInfoFails :: bool

definition getItem :: "selector \<Rightarrow> string option \<Rightarrow> error + string option" where
  "getItem S stored = (if getItemFails S then Inl StorageError else Inr stored)"

definition getInfoAsync :: "selector \<Rightarrow> string \<Rightarrow> error + bool" where
  "getInfoAsync S p = (if getInfoFails S then Inl FileError else Inr (p \<in> adhanFiles S))"

text \<open>\<^verbatim>\<open>id || dflt\<close>: \<^verbatim>\<open>null\<close> and the empty string are falsy.\<close>

definition orDefault :: "string option \<Rightarrow> string \<Rightarrow> string" where
  "orDefault i dflt = (case i of None \<Rightarrow> dflt | Some s \<Rightarrow> if s = [] then dflt else s)"

definition getSelectedRegularAdhan :: "selector \<Rightarrow> error + string" where
  "getSelectedRegularAdhan S =
     (case getItem S (selectedRegular S) of
        Inl e \<Rightarrow> Inr ''makkah-regular''
      | Inr i \<Rightarrow> Inr (orDefault i ''makkah-regular''))"

definition getSelectedFajrAdhan :: "selector \<Rightarrow> error + string" where
  "getSelectedFajrAdhan S =
     (case getItem S (selectedFajr S) of
        Inl e \<Rightarrow> Inr ''makkah-fajr''
      | Inr i \<Rightarrow> Inr (orDefault i ''makkah-fajr''))"

text \<open>
  \<^verbatim>\<open>String.prototype.toLowerCase\<close> on the ASCII letters: the codes 65 to 90 get 32 added,
  which sets their bit of weight 32.
\<close>

definition lowerChar :: "char \<Rightarrow> char" where
  "lowerChar c =
     (if 65 \<le> (of_char c :: nat) \<and> (of_char c :: nat) \<le> 90
      then (case c of Char b0 b1 b2 b3 b4 b5 b6 b7 \<Rightarrow> Char b0 b1 b2 b3 b4 True b6 b7)
      else c)"

definition toLowerCase :: "string \<Rightarrow> string" where
  "toLowerCase s = map lowerChar s"

definition localPathOf :: "selector \<Rightarrow> AdhanVoice \<Rightarrow> string" where
  "localPathOf S voice = documentDirectory S @ ''adhan/'' @ v_id voice @ ''.mp3''"

definition getAdhanUrlForPrayer :: "selector \<Rightarrow> string \<Rightarrow> error + string" where
  "getAdhanUrlForPrayer S prayerName =
     (let isFajr = (toLowerCase prayerName = ''fajr'') in
      case (if isFajr then getSelectedFajrAdhan S else getSelectedRegularAdhan S) of
        Inl e \<Rightarrow> Inl e
      | Inr selectedId \<Rightarrow>
          (case getAdhanVoiceById selectedId of
             None \<Rightarrow>
               Inr (if isFajr then ''https://www.islamcan.com/audio/adhan/azan7.mp3''
                    else ''https://www.islamcan.com/audio/adhan/azan1.mp3'')
           | Some voice \<Rightarrow>
               (case getInfoAsync S (localPathOf S voice) of
                  Inr True \<Rightarrow> Inr (localPathOf S voice)
                | _ \<Rightarrow> Inr (v_previewUrl voice))))"

text \<open>
  \<^verbatim>\<open>onSchedule\<close> of the application screen that uses the selector; \<open>granted\<close> is the
  answer of \<^verbatim>\<open>requestPermissions\<close>. The catch of its try block only shows an alert.
\<close>

definition onSchedule :: "platform \<Rightarrow> selector \<Rightarrow> bool \<Rightarrow> PrayerTimesMap \<Rightarrow> nworld \<Rightarrow> (error + unit) \<times> nworld" where
  "onSchedule P S granted prayerTimes w =
     (if \<not> granted then (Inr (), w)
      else case ensureNotificationChannel P w of
        (Inl e, w1) \<Rightarrow> (Inl e, w1)
      | (Inr _, w1) \<Rightarrow>
          (case getAdhanUrlForPrayer S ''dhuhr'' of
             Inl e \<Rightarrow> (Inr (), w1)
           | Inr adhanUrl \<Rightarrow>
               (case scheduleDailyPrayerNotifications P (entries prayerTimes) (Some adhanUrl) w1 of
                  (_, w2) \<Rightarrow> (Inr (), w2))))"

text \<open>The prayer name inside a notification's tag: what precedes the first hyphen.\<close>

definition alarmName :: "alarm \<Rightarrow> string" where
  "alarmName a = takeWhile (\<lambda>c. c \<noteq> CHR ''-'') (idTag a)"

text \<open>A fresh install: nothing selected, nothing downloaded.\<close>

definition freshSelector :: selector where
  "freshSelector = \<lparr>selectedRegular = None, selectedFajr = None, adhanFiles = {},
     documentDirectory = ''file:///data/'', getItemFails = False, getInfoFails = False\<rparr>"

text \<open>
  A device on which the Madinah adhan is the selected regular voice, not yet downloaded,
  and the same device once the voice has been downloaded.
\<close>

definition madinahSelector :: selector where
  "madinahSelector = freshSelector\<lparr>selectedRegular := Some ''madinah-regular''\<rparr>"


section \<open>services/voicesManager.ts\<close>

record VoiceMeta =
  m_id :: string
  m_name :: string
  m_path :: "string option"
  m_variant :: "string option"

record RemoteVoice =
  r_id :: string
  r_name :: string
  r_previewUrl :: string

text \<open>
  The device as the voice manager sees it: the values stored in AsyncStorage under
  \<^verbatim>\<open>DOWNLOADED_VOICES\<close> (parsed) and \<^verbatim>\<open>ACTIVE_VOICE_ID\<close>, the paths of the files that
  exist, and \<^verbatim>\<open>FileSystem.documentDirectory\<close>.
\<close>

record vstore =
  downloadedVoices :: "VoiceMeta list option"
  activeVoiceId :: "string option"
  fsFiles :: "string set"
  docDirectory :: string

text \<open>Which calls of AsyncStorage and of the file system reject.\<close>

record vplatform =
  kvGetFails :: bool
  kvSetFails :: bool
  mkdirFails :: bool
  deleteFails :: bool
  downloadFails :: "string \<Rightarrow> bool"
  writeFails :: bool
  copyFails :: bool
  infoFails :: bool

text \<open>\<^verbatim>\<open>await m; f\<close>: a rejection of \<open>m\<close> skips the rest and keeps the state reached.\<close>

definition awaitThen ::
  "('s \<Rightarrow> (error + 'a) \<times> 's) \<Rightarrow> ('a \<Rightarrow> 's \<Rightarrow> (error + 'b) \<times> 's) \<Rightarrow> 's \<Rightarrow> (error + 'b) \<times> 's" where
  "awaitThen m f s = (case m s of (Inl e, s1) \<Rightarrow> (Inl e, s1) | (Inr a, s1) \<Rightarrow> f a s1)"

definition returns :: "'a \<Rightarrow> 's \<Rightarrow> (error + 'a) \<times> 's" where
  "returns a s = (Inr a, s)"

definition makeDirectoryAsync :: "vplatform \<Rightarrow> string \<Rightarrow> vstore \<Rightarrow> (error + unit) \<times> vstore" where
  "makeDirectoryAsync F dir w = (if mkdirFails F then (Inl FileError, w) else (Inr (), w))"

definition deleteAsync :: "vplatform \<Rightarrow> string \<Rightarrow> vstore \<Rightarrow> (error + unit) \<times> vstore" where
  "deleteAsync F p w =
     (if deleteFails F then (Inl FileError, w) else (Inr (), w\<lparr>fsFiles := fsFiles w - {p}\<rparr>))"

definition downloadAsync :: "vplatform \<Rightarrow> string \<Rightarrow> string \<Rightarrow> vstore \<Rightarrow> (error + unit) \<times> vstore" where
  "downloadAsync F url p w =
     (if downloadFails F url then (Inl NetworkError, w)
      else (Inr (), w\<lparr>fsFiles := insert p (fsFiles w)\<rparr>))"

definition writeAsStringAsync :: "vplatform \<Rightarrow> string \<Rightarrow> vstore \<Rightarrow> (error + unit) \<times> vstore" where
  "writeAsStringAsync F p w =
     (if writeFails F then (Inl FileError, w) else (Inr (), w\<lparr>fsFiles := insert p (fsFiles w)\<rparr>))"

definition copyAsync :: "vplatform \<Rightarrow> string \<Rightarrow> string \<Rightarrow> vstore \<Rightarrow> (error + unit) \<times> vstore" where
  "copyAsync F src dst w =
     (if copyFails F \<or> src \<notin> fsFiles w then (Inl FileError, w)
      else (Inr (), w\<lparr>fsFiles := insert dst (fsFiles w)\<rparr>))"

definition fileExists :: "vplatform \<Rightarrow> string \<Rightarrow> vstore \<Rightarrow> (error + bool) \<times> vstore" where
  "fileExists F p w = (if infoFails F then (Inl FileError, w) else (Inr (p \<in> fsFiles w), w))"

definition getDownloadedItem :: "vplatform \<Rightarrow> vstore \<Rightarrow> (error + VoiceMeta list option) \<times> vstore" where
  "getDownloadedItem F w = (if kvGetFails F then (Inl StorageError, w) else (Inr (downloadedVoices w), w))"

definition setDownloadedItem :: "vplatform \<Rightarrow> VoiceMeta list \<Rightarrow> vstore \<Rightarrow> (error + unit) \<times> vstore" where
  "setDownloadedItem F arr w =
     (if kvSetFails F then (Inl StorageError, w) else (Inr (), w\<lparr>downloadedVoices := Some arr\<rparr>))"

definition getActiveItem :: "vplatform \<Rightarrow> vstore \<Rightarrow> (error + string option) \<times> vstore" where
  "getActiveItem F w = (if kvGetFails F then (Inl StorageError, w) else (Inr (activeVoiceId w), w))"

definition setActiveItem :: "vplatform \<Rightarrow> string \<Rightarrow> vstore \<Rightarrow> (error + unit) \<times> vstore" where
  "setActiveItem F i w =
     (if kvSetFails F then (Inl StorageError, w) else (Inr (), w\<lparr>activeVoiceId := Some i\<rparr>))"

definition removeActiveItem :: "vplatform \<Rightarrow> vstore \<Rightarrow> (error + unit) \<times> vstore" where
  "removeActiveItem F w =
     (if kvSetFails F then (Inl StorageError, w) else (Inr (), w\<lparr>activeVoiceId := None\<rparr>))"

text \<open>\<^verbatim>\<open>raw ? JSON.parse(raw) : []\<close>\<close>

definition parseVoices :: "VoiceMeta list option \<Rightarrow> VoiceMeta list" where
  "parseVoices raw = (case raw of None \<Rightarrow> [] | Some arr \<Rightarrow> arr)"

text \<open>
  \<^verbatim>\<open>generateSyntheticAdhan\<close> of \<^verbatim>\<open>services/voices.ts\<close>: the waveform is computed without
  side effects and written to \<^verbatim>\<open>adhan-synthetic-${variant}.wav\<close>; only the file's
  existence is kept.
\<close>

definition generateSyntheticAdhan :: "vplatform \<Rightarrow> string \<Rightarrow> vstore \<Rightarrow> (error + string) \<times> vstore" where
  "generateSyntheticAdhan F variant w =
     (let p = docDirectory w @ ''adhan-synthetic-'' @ variant @ ''.wav'' in
      awaitThen (writeAsStringAsync F p) (\<lambda>_. returns p) w)"

definition voiceFile :: "vstore \<Rightarrow> string \<Rightarrow> string" where
  "voiceFile w i = docDirectory w @ ''voices/'' @ ''voice-'' @ i @ ''.wav''"

text \<open>The try block of \<^verbatim>\<open>downloadRemoteVoice\<close>, and the function with its catch.\<close>

definition downloadRemoteVoiceBody :: "vplatform \<Rightarrow> RemoteVoice \<Rightarrow> vstore \<Rightarrow> (error + VoiceMeta) \<times> vstore" where
  "downloadRemoteVoiceBody F remote w =
     (let destDir = docDirectory w @ ''voices/'';
          newPath = voiceFile w (r_id remote);
          meta = \<lparr>m_id = r_id remote, m_name = r_name remote, m_path = Some newPath,
                  m_variant = Some (r_id remote)\<rparr>
      in awaitThen (makeDirectoryAsync F destDir) (\<lambda>_.
         awaitThen (deleteAsync F newPath) (\<lambda>_.
         awaitThen (downloadAsync F (r_previewUrl remote) newPath) (\<lambda>_.
         awaitThen (getDownloadedItem F) (\<lambda>raw.
         awaitThen (setDownloadedItem F
                      (filter (\<lambda>a. m_id a \<noteq> r_id remote) (parseVoices raw) @ [meta])) (\<lambda>_.
         returns meta))))) w)"

definition downloadRemoteVoice :: "vplatform \<Rightarrow> RemoteVoice \<Rightarrow> vstore \<Rightarrow> (error + VoiceMeta option) \<times> vstore" where
  "downloadRemoteVoice F remote w =
     (case downloadRemoteVoiceBody F remote w of
        (Inl e, w1) \<Rightarrow> (Inr None, w1)
      | (Inr meta, w1) \<Rightarrow> (Inr (Some meta), w1))"

definition downloadVoiceBody :: "vplatform \<Rightarrow> string \<Rightarrow> vstore \<Rightarrow> (error + VoiceMeta) \<times> vstore" where
  "downloadVoiceBody F voiceId w =
     (let destDir = docDirectory w @ ''voices/'';
          newPath = voiceFile w voiceId;
          meta = \<lparr>m_id = voiceId, m_name = voiceId, m_path = Some newPath,
                  m_variant = Some voiceId\<rparr>
      in awaitThen (makeDirectoryAsync F destDir) (\<lambda>_.
         awaitThen (generateSyntheticAdhan F voiceId) (\<lambda>p.
         awaitThen (copyAsync F p newPath) (\<lambda>_.
         awaitThen (getDownloadedItem F) (\<lambda>raw.
         awaitThen (setDownloadedItem F
                      (filter (\<lambda>a. m_id a \<noteq> voiceId) (parseVoices raw) @ [meta])) (\<lambda>_.
         returns meta))))) w)"

definition downloadVoice :: "vplatform \<Rightarrow> string \<Rightarrow> vstore \<Rightarrow> (error + VoiceMeta option) \<times> vstore" where
  "downloadVoice F voiceId w =
     (case downloadVoiceBody F voiceId w of
        (Inl e, w1) \<Rightarrow> (Inr None, w1)
      | (Inr meta, w1) \<Rightarrow> (Inr (Some meta), w1))"

text \<open>\<^verbatim>\<open>removeDownloadedVoice\<close> has no try/catch: a rejection propagates.\<close>

definition removeDownloadedVoice :: "vplatform \<Rightarrow> string \<Rightarrow> vstore \<Rightarrow> (error + unit) \<times> vstore" where
  "removeDownloadedVoice F voiceId w =
     (let p = voiceFile w voiceId
      in awaitThen (getDownloadedItem F) (\<lambda>raw.
         awaitThen (setDownloadedItem F (filter (\<lambda>a. m_id a \<noteq> voiceId) (parseVoices raw))) (\<lambda>_.
         awaitThen (fileExists F p) (\<lambda>ex.
         awaitThen (if ex then deleteAsync F p else returns ()) (\<lambda>_.
         awaitThen (getActiveItem F) (\<lambda>active.
         if active = Some voiceId then removeActiveItem F else returns ()))))) w)"

definition listDownloadedVoices :: "vplatform \<Rightarrow> vstore \<Rightarrow> error + VoiceMeta list" where
  "listDownloadedVoices F w =
     (case fst (getDownloadedItem F w) of Inl e \<Rightarrow> Inl e | Inr raw \<Rightarrow> Inr (parseVoices raw))"

text \<open>\<^verbatim>\<open>if (!voiceId)\<close>, \<^verbatim>\<open>if (!id)\<close>: \<^verbatim>\<open>null\<close> and the empty string are falsy.\<close>

definition falsy :: "string option \<Rightarrow> bool" where
  "falsy s \<longleftrightarrow> s = None \<or> s = Some []"

definition setActiveVoice :: "vplatform \<Rightarrow> string option \<Rightarrow> vstore \<Rightarrow> (error + unit) \<times> vstore" where
  "setActiveVoice F voiceId w =
     (case voiceId of
        None \<Rightarrow> removeActiveItem F w
      | Some i \<Rightarrow> if i = [] then removeActiveItem F w else setActiveItem F i w)"

definition getActiveVoice :: "vplatform \<Rightarrow> vstore \<Rightarrow> error + VoiceMeta option" where
  "getActiveVoice F w =
     (case fst (getActiveItem F w) of
        Inl e \<Rightarrow> Inl e
      | Inr i \<Rightarrow>
          if falsy i then Inr None
          else (case listDownloadedVoices F w of
                  Inl e \<Rightarrow> Inl e
                | Inr arr \<Rightarrow> Inr (List.find (\<lambda>a. Some (m_id a) = i) arr)))"

text \<open>A file system and a storage on which no call rejects.\<close>

definition vreliable :: "vplatform \<Rightarrow> bool" where
  "vreliable F \<longleftrightarrow> \<not> kvGetFails F \<and> \<not> kvSetFails F \<and> \<not> mkdirFails F \<and> \<not> deleteFails F
     \<and> (\<forall>u. \<not> downloadFails F u) \<and> \<not> writeFails F \<and> \<not> copyFails F \<and> \<not> infoFails F"

definition okFiles :: vplatform where
  "okFiles = \<lparr>kvGetFails = False, kvSetFails = False, mkdirFails = False, deleteFails = False,
     downloadFails = (\<lambda>_. False), writeFails = False, copyFails = False, infoFails = False\<rparr>"

definition offline :: vplatform where
  "offline = okFiles\<lparr>downloadFails := (\<lambda>_. True)\<rparr>"

definition emptyStore :: vstore where
  "emptyStore = \<lparr>downloadedVoices = None, activeVoiceId = None, fsFiles = {},
     docDirectory = ''file:///data/''\<rparr>"

definition remoteA :: RemoteVoice where
  "remoteA = \<lparr>r_id = ''remote-a'', r_name = ''Demo Voice A'',
     r_previewUrl = ''https://actions.google.com/sounds/v1/alarms/beep_short.ogg''\<rparr>"

text \<open>Sample stores: one voice installed and active; the pointer names a voice that is not installed.\<close>

definition deepMeta :: VoiceMeta where
  "deepMeta = \<lparr>m_id = ''deep'', m_name = ''deep'',
     m_path = Some ''file:///data/voices/voice-deep.wav'', m_variant = Some ''deep''\<rparr>"

definition deepStore :: vstore where
  "deepStore = \<lparr>downloadedVoices = Some [deepMeta], activeVoiceId = Some ''deep'',
     fsFiles = {''file:///data/voices/voice-deep.wav''}, docDirectory = ''file:///data/''\<rparr>"

definition danglingStore :: vstore where
  "danglingStore = deepStore\<lparr>activeVoiceId := Some ''bright''\<rparr>"

section \<open>Playback: the two versions of playAdhan in the application screens\<close>

text \<open>
  What \<^verbatim>\<open>Audio.Sound.createAsync\<close> is given: a uri, or the bundled asset
  \<^verbatim>\<open>require('../assets/adhan.mp3')\<close>.
\<close>

datatype source = Uri string | BundledAsset

text \<open>
  The player: \<^verbatim>\<open>soundRef.current\<close>, the sounds that have been created and not unloaded
  (the player resources held, each with its source), the sounds on which playback has
  been started, and the counter that names new sounds.
\<close>

record player =
  soundRef :: "nat option"
  sounds :: "(nat \<times> source) list"
  playing :: "nat list"
  nextSound :: nat

record audio =
  createFails :: "source \<Rightarrow> bool"
  playFails :: "source \<Rightarrow> bool"
  unloadFails :: "nat \<Rightarrow> bool"
  volumeFails :: bool

text \<open>
  What the first version's fallback reads of the file system: the listing of the
  \<^verbatim>\<open>voices/\<close> directory (\<open>None\<close> when it does not exist), the listing of the document
  directory, and whether \<^verbatim>\<open>getInfoAsync\<close> or \<^verbatim>\<open>readDirectoryAsync\<close> rejects.
\<close>

record listing =
  voicesListing :: "string list option"
  docListing :: "string list"
  listingFails :: bool
  listingRoot :: string

definition startsWith :: "string \<Rightarrow> string \<Rightarrow> bool" where
  "startsWith s pre \<longleftrightarrow> take (length pre) s = pre"

text \<open>\<^verbatim>\<open>await sound.unloadAsync()\<close> taking effect on the sound \<open>h\<close>.\<close>

definition unloadAsync :: "audio \<Rightarrow> nat \<Rightarrow> player \<Rightarrow> player" where
  "unloadAsync A h p =
     (if unloadFails A h then p
      else p\<lparr>sounds := filter (\<lambda>s. fst s \<noteq> h) (sounds p),
             playing := filter (\<lambda>k. k \<noteq> h) (playing p)\<rparr>)"

text \<open>
  \<^verbatim>\<open>if (soundRef.current) { try { await soundRef.current.unloadAsync(); } catch (_) {}
  soundRef.current = null; }\<close>, run without interruption.
\<close>

definition unloadPrevious :: "audio \<Rightarrow> player \<Rightarrow> player" where
  "unloadPrevious A p =
     (case soundRef p of None \<Rightarrow> p | Some h \<Rightarrow> (unloadAsync A h p)\<lparr>soundRef := None\<rparr>)"

text \<open>\<^verbatim>\<open>Audio.Sound.createAsync\<close>, when it does not reject: a new sound is held.\<close>

definition createSound :: "source \<Rightarrow> player \<Rightarrow> player" where
  "createSound src p = p\<lparr>sounds := sounds p @ [(nextSound p, src)], nextSound := Suc (nextSound p)\<rparr>"

text \<open>
  The first version's repeated try body
  \<^verbatim>\<open>const { sound } = await Audio.Sound.createAsync(src); soundRef.current = sound;
  await soundRef.current.replayAsync(); return;\<close>. The flag is whether it returned.
\<close>

definition createAndReplay :: "audio \<Rightarrow> source \<Rightarrow> player \<Rightarrow> bool \<times> player" where
  "createAndReplay A src p =
     (if createFails A src then (False, p)
      else let h = nextSound p; p1 = (createSound src p)\<lparr>soundRef := Some h\<rparr>
           in if playFails A src then (False, p1)
              else (True, p1\<lparr>playing := playing p1 @ [h]\<rparr>))"

definition fallbackFiles :: "audio \<Rightarrow> listing \<Rightarrow> player \<Rightarrow> player" where
  "fallbackFiles A L p =
     (if listingFails L then p
      else case (case voicesListing L of None \<Rightarrow> None
                 | Some files \<Rightarrow> List.find (\<lambda>f. startsWith f ''voice-'') files) of
        Some found \<Rightarrow> snd (createAndReplay A (Uri (listingRoot L @ ''voices/'' @ found)) p)
      | None \<Rightarrow>
          (case List.find (\<lambda>e. startsWith e ''adhan-synthetic'') (docListing L) of
             Some synthetic \<Rightarrow> snd (createAndReplay A (Uri (listingRoot L @ synthetic)) p)
           | None \<Rightarrow>
               snd (createAndReplay A
                      (Uri ''https://actions.google.com/sounds/v1/alarms/beep_short.ogg'') p)))"

text \<open>The first version of \<^verbatim>\<open>playAdhan(voicePath?)\<close>, run without interruption.\<close>

definition playAdhan1 :: "audio \<Rightarrow> listing \<Rightarrow> string option \<Rightarrow> player \<Rightarrow> player" where
  "playAdhan1 A L vp p =
     (let p0 = unloadPrevious A p;
          r1 = (case vp of
                  None \<Rightarrow> (False, p0)
                | Some u \<Rightarrow> if u = [] then (False, p0) else createAndReplay A (Uri u) p0)
      in if fst r1 then snd r1
         else case createAndReplay A BundledAsset (snd r1) of
                (True, p2) \<Rightarrow> p2
              | (False, p2) \<Rightarrow> fallbackFiles A L p2)"

text \<open>
  The later version
  \<^verbatim>\<open>playAdhan(voicePath?, prayerName?)\<close> is an async function: it runs until its next
  \<^verbatim>\<open>await\<close>, and other callbacks of the application run before it is resumed. Its
  suspension points are the values of \<open>pc\<close>; \<open>resume\<close> runs one invocation from a
  suspension point to the next one. The effect of the awaited platform call is applied
  when the invocation is resumed.
\<close>

datatype pc = Start | AwaitUnload nat | AwaitUrl | AwaitCreate string
  | AwaitSetVolume nat source | AwaitPlay nat source | Done

record invocation =
  at :: pc
  voicePathArg :: "string option"
  prayerNameArg :: "string option"

definition afterUnload :: "invocation \<Rightarrow> player \<Rightarrow> pc \<times> player" where
  "afterUnload t p =
     (case voicePathArg t of
        None \<Rightarrow> (AwaitUrl, p)
      | Some u \<Rightarrow> if u = [] then (AwaitUrl, p) else (AwaitCreate u, p))"

definition resume :: "audio \<Rightarrow> selector \<Rightarrow> bool \<Rightarrow> invocation \<Rightarrow> player \<Rightarrow> pc \<times> player" where
  "resume A S silentMode t p =
     (case at t of
        Start \<Rightarrow>
          if silentMode then (Done, p)
          else (case soundRef p of
                  Some h \<Rightarrow> (AwaitUnload h, p)
                | None \<Rightarrow> afterUnload t p)
      | AwaitUnload h \<Rightarrow> afterUnload t ((unloadAsync A h p)\<lparr>soundRef := None\<rparr>)
      | AwaitUrl \<Rightarrow>
          (case getAdhanUrlForPrayer S (orDefault (prayerNameArg t) ''dhuhr'') of
             Inl e \<Rightarrow> (Done, p)
           | Inr adhanUrl \<Rightarrow> (AwaitCreate adhanUrl, p))
      | AwaitCreate adhanUrl \<Rightarrow>
          if createFails A (Uri adhanUrl) then (Done, p)
          else (AwaitSetVolume (nextSound p) (Uri adhanUrl),
                (createSound (Uri adhanUrl) p)\<lparr>soundRef := Some (nextSound p)\<rparr>)
      | AwaitSetVolume h src \<Rightarrow> if volumeFails A then (Done, p) else (AwaitPlay h src, p)
      | AwaitPlay h src \<Rightarrow>
          if playFails A src then (Done, p) else (Done, p\<lparr>playing := playing p @ [h]\<rparr>)
      | Done \<Rightarrow> (Done, p))"

text \<open>One invocation run from its start to its end with nothing in between.\<close>

fun runAlone :: "nat \<Rightarrow> audio \<Rightarrow> selector \<Rightarrow> bool \<Rightarrow> invocation \<Rightarrow> player \<Rightarrow> invocation \<times> player" where
  "runAlone 0 A S silentMode t p = (t, p)"
| "runAlone (Suc n) A S silentMode t p =
     (case resume A S silentMode t p of (pc', p') \<Rightarrow> runAlone n A S silentMode (t\<lparr>at := pc'\<rparr>) p')"

definition playAdhan3 :: "audio \<Rightarrow> selector \<Rightarrow> bool \<Rightarrow> string option \<Rightarrow> string option \<Rightarrow> player \<Rightarrow> player" where
  "playAdhan3 A S silentMode vp prayerName p =
     snd (runAlone 6 A S silentMode \<lparr>at = Start, voicePathArg = vp, prayerNameArg = prayerName\<rparr> p)"

text \<open>
  Several invocations in flight: a schedule names, step by step, the invocation that is
  resumed next.
\<close>

definition resumeAt :: "audio \<Rightarrow> selector \<Rightarrow> bool \<Rightarrow> nat \<Rightarrow> invocation list \<times> player \<Rightarrow> invocation list \<times> player" where
  "resumeAt A S silentMode i c =
     (if i < length (fst c)
      then (case resume A S silentMode (fst c ! i) (snd c) of
              (pc', p') \<Rightarrow> ((fst c)[i := (fst c ! i)\<lparr>at := pc'\<rparr>], p'))
      else c)"

definition runSchedule :: "audio \<Rightarrow> selector \<Rightarrow> bool \<Rightarrow> nat list \<Rightarrow> invocation list \<times> player \<Rightarrow> invocation list \<times> player" where
  "runSchedule A S silentMode sched c = foldl (\<lambda>c i. resumeAt A S silentMode i c) c sched"

text \<open>Every sound that is held is the one \<^verbatim>\<open>soundRef.current\<close> points to.\<close>

definition heldByRef :: "player \<Rightarrow> bool" where
  "heldByRef p \<longleftrightarrow> list_all (\<lambda>s. soundRef p = Some (fst s)) (sounds p) \<and> distinct (map fst (sounds p))"

definition okAudio :: audio where
  "okAudio = \<lparr>createFails = (\<lambda>_. False), playFails = (\<lambda>_. False), unloadFails = (\<lambda>_. False),
     volumeFails = False\<rparr>"

definition idlePlayer :: player where
  "idlePlayer = \<lparr>soundRef = None, sounds = [], playing = [], nextSound = 0\<rparr>"

definition noListing :: listing where
  "noListing = \<lparr>voicesListing = None, docListing = [], listingFails = False,
     listingRoot = ''file:///data/''\<rparr>"

text \<open>The payload of a notification whose voice path is the Makkah adhan, fired and tapped.\<close>

definition fired :: invocation where
  "fired = \<lparr>at = Start, voicePathArg = Some ''https://www.islamcan.com/audio/adhan/azan1.mp3'',
     prayerNameArg = None\<rparr>"

text \<open>A platform on which the adhan loads but its playback does not start.\<close>

definition cannotPlay :: audio where
  "cannotPlay = okAudio\<lparr>playFails := (\<lambda>src. src \<noteq> BundledAsset)\<rparr>"

text \<open>\<^verbatim>\<open>const active = await getActiveVoice(); const voicePath = active?.path;\<close>\<close>

definition optionalPath :: "error + VoiceMeta option \<Rightarrow> string option" where
  "optionalPath active = (case active of Inr (Some m) \<Rightarrow> m_path m | _ \<Rightarrow> None)"

section \<open>Properties of the notification service\<close>

lemma cancelEach_registry:
  "registry (snd (cancelEach P is w)) =
     filter (\<lambda>a. \<not> (aid a \<in> set is \<and> \<not> cancelFails P (aid a))) (registry w)"
proof (induction "is" arbitrary: w)
  case Nil
  then show ?case by simp
next
  case (Cons i js)
  show ?case
    using Cons.IH [of "snd (cancelScheduledNotificationAsync P i w)"]
    by (auto simp: cancelScheduledNotificationAsync_def split: prod.splits intro: filter_cong)
qed

lemma cancelEach_ok:
  "fst (cancelEach P is w) \<longleftrightarrow> \<not> list_ex (cancelFails P) is"
  by (induction "is" arbitrary: w)
     (auto simp: cancelScheduledNotificationAsync_def split: prod.splits)

lemma cancelEach_frame:
  "scheduledIds (snd (cancelEach P is w)) = scheduledIds w
   \<and> nextId (snd (cancelEach P is w)) = nextId w
   \<and> now (snd (cancelEach P is w)) = now w"
proof (induction "is" arbitrary: w)
  case Nil
  then show ?case by simp
next
  case (Cons i js)
  show ?case
    using Cons.IH [of "snd (cancelScheduledNotificationAsync P i w)"]
    by (auto simp: cancelScheduledNotificationAsync_def split: prod.splits)
qed

lemma cancelEach_snd:
  "snd (cancelEach P is w) =
     w\<lparr>registry := filter (\<lambda>a. \<not> (aid a \<in> set is \<and> \<not> cancelFails P (aid a))) (registry w)\<rparr>"
  by (rule nworld.equality) (simp_all add: cancelEach_registry cancelEach_frame)

lemma cancelEach_eq:
  "cancelEach P is w =
     (\<not> list_ex (cancelFails P) is,
      w\<lparr>registry := filter (\<lambda>a. \<not> (aid a \<in> set is \<and> \<not> cancelFails P (aid a))) (registry w)\<rparr>)"
  using cancelEach_ok [of P "is" w] cancelEach_snd [of P "is" w]
  by (cases "cancelEach P is w") simp

lemma cancelAll_eq:
  "cancelAllScheduledNotifications P w =
     (Inr (),
      if storageReadFails P then w
      else if list_ex (cancelFails P) (parseIds (scheduledIds w)) \<or> storageWriteFails P
      then w\<lparr>registry := filter (\<lambda>a. \<not> (aid a \<in> set (parseIds (scheduledIds w)) \<and> \<not> cancelFails P (aid a))) (registry w)\<rparr>
      else w\<lparr>registry := filter (\<lambda>a. \<not> (aid a \<in> set (parseIds (scheduledIds w)) \<and> \<not> cancelFails P (aid a))) (registry w),
             scheduledIds := None\<rparr>)"
  by (simp add: cancelAllScheduledNotifications_def cancelAllBody_def cancelEach_eq)

lemma upt_shift: "[n..<Suc (n + k)] = n # [Suc n..<Suc (n + k)]"
  by (simp add: upt_conv_Cons)

lemma scheduleNotificationForPrayer_registers:
  "\<not> scheduleFails P (nextId w) \<Longrightarrow>
   scheduleNotificationForPrayer P tg ti bo d vp w =
     (Inr (nextId w),
      w\<lparr>scheduledIds := (if storageReadFails P \<or> storageWriteFails P then scheduledIds w
                          else Some (parseIds (scheduledIds w) @ [nextId w])),
        registry := registry w @
          [\<lparr>aid = nextId w, idTag = tg, title = ti, body = bo, date = d, voicePath = vp\<rparr>],
        nextId := Suc (nextId w)\<rparr>)"
  by (simp add: scheduleNotificationForPrayer_def scheduleNotificationAsync_def persistId_def)

lemma scheduleLoop_registers:
  assumes "\<forall>i. \<not> scheduleFails P i"
  shows "validDates P (now w) es \<Longrightarrow>
   scheduleLoop P es vp acc w =
     (Inr (acc @ [nextId w..<nextId w + length es]),
      w\<lparr>scheduledIds := (if es = [] \<or> storageReadFails P \<or> storageWriteFails P then scheduledIds w
                          else Some (parseIds (scheduledIds w) @ [nextId w..<nextId w + length es])),
        registry := registry w @ newAlarms P (now w) vp [nextId w..<nextId w + length es] es,
        nextId := nextId w + length es\<rparr>)"
proof (induction es arbitrary: acc w)
  case Nil
  then show ?case by (simp add: newAlarms_def)
next
  case (Cons e es)
  obtain name dt where e: "e = (name, dt)" by (cases e)
  from Cons.prems obtain d where d: "rollDate P (now w) dt = Some d"
    and rest: "validDates P (now w) es"
    by (auto simp add: validDates_def e)
  have nf: "\<not> scheduleFails P (nextId w)"
    using assms by simp
  show ?case
    unfolding e scheduleLoop.simps
    using rest
    by (simp add: d scheduleNotificationForPrayer_registers [OF nf] Cons.IH upt_shift
         newAlarms_def dailyAlarm_def parseIds_def del: upt_Suc)
qed

lemma reliable_ok: "reliable okPlatform"
  by (simp add: reliable_def okPlatform_def)

lemma scheduleDaily_unfold:
  "\<not> channelFails P \<Longrightarrow>
   scheduleDailyPrayerNotifications P es vp w =
     scheduleLoop P es vp [] (snd (cancelAllScheduledNotifications P w))"
  by (simp add: scheduleDailyPrayerNotifications_def ensureNotificationChannel_def
      split: prod.splits)

lemma cancelAll_reliable:
  "reliable P \<Longrightarrow>
   cancelAllScheduledNotifications P w =
     (Inr (), w\<lparr>registry := filter (\<lambda>a. aid a \<notin> set (parseIds (scheduledIds w))) (registry w),
                 scheduledIds := None\<rparr>)"
  by (simp add: cancelAll_eq reliable_def list_ex_iff)

lemma scheduleDaily_reliable:
  assumes "reliable P" and "validDates P (now w) es"
  shows "scheduleDailyPrayerNotifications P es vp w =
     (Inr [nextId w..<nextId w + length es],
      w\<lparr>scheduledIds := (if es = [] then None else Some [nextId w..<nextId w + length es]),
        registry := filter (\<lambda>a. aid a \<notin> set (parseIds (scheduledIds w))) (registry w)
           @ newAlarms P (now w) vp [nextId w..<nextId w + length es] es,
        nextId := nextId w + length es\<rparr>)"
proof -
  have r: "\<not> channelFails P" "\<forall>i. \<not> scheduleFails P i"
    "\<not> storageReadFails P" "\<not> storageWriteFails P"
    using assms(1) by (simp_all add: reliable_def)
  have v: "validDates P (now (snd (cancelAllScheduledNotifications P w))) es"
    using assms(2) by (simp add: cancelAll_reliable [OF assms(1)])
  show ?thesis
    unfolding scheduleDaily_unfold [OF r(1)] scheduleLoop_registers [OF r(2) v]
    by (simp add: cancelAll_reliable [OF assms(1)] r parseIds_def)
qed

lemma tracked_filter:
  "tracked w \<Longrightarrow> filter (\<lambda>a. aid a \<notin> set (parseIds (scheduledIds w))) (registry w) = []"
  by (simp add: tracked_def list_all_iff filter_empty_conv)

lemma map_aid_newAlarms:
  "length is = length es \<Longrightarrow> map aid (newAlarms P nw vp is es) = is"
  unfolding newAlarms_def
  by (induction "is" es rule: list_induct2) (simp_all add: dailyAlarm_def)

lemma map_date_newAlarms:
  "length is = length es \<Longrightarrow>
   map date (newAlarms P nw vp is es) = map (\<lambda>e. the (rollDate P nw (snd e))) es"
  unfolding newAlarms_def
  by (induction "is" es rule: list_induct2) (simp_all add: dailyAlarm_def)

lemma map_voicePath_newAlarms:
  "length is = length es \<Longrightarrow> map voicePath (newAlarms P nw vp is es) = map (\<lambda>e. vp) es"
  unfolding newAlarms_def
  by (induction "is" es rule: list_induct2) (simp_all add: dailyAlarm_def)

lemma length_newAlarms:
  "length is = length es \<Longrightarrow> length (newAlarms P nw vp is es) = length es"
  by (simp add: newAlarms_def)

lemma scheduleDaily_tracked:
  assumes "reliable P" and "tracked w" and "validDates P (now w) es"
  shows "scheduleDailyPrayerNotifications P es vp w =
     (Inr [nextId w..<nextId w + length es],
      w\<lparr>scheduledIds := (if es = [] then None else Some [nextId w..<nextId w + length es]),
        registry := newAlarms P (now w) vp [nextId w..<nextId w + length es] es,
        nextId := nextId w + length es\<rparr>)"
  by (simp add: scheduleDaily_reliable [OF assms(1,3)] tracked_filter [OF assms(2)])

lemma scheduleDaily_tracked_props:
  assumes "reliable P" and "tracked w" and "validDates P (now w) es"
  shows "fst (scheduleDailyPrayerNotifications P es vp w) = Inr [nextId w..<nextId w + length es]"
    and "map aid (registry (snd (scheduleDailyPrayerNotifications P es vp w))) = [nextId w..<nextId w + length es]"
    and "parseIds (scheduledIds (snd (scheduleDailyPrayerNotifications P es vp w))) = [nextId w..<nextId w + length es]"
    and "nextId (snd (scheduleDailyPrayerNotifications P es vp w)) = nextId w + length es"
proof -
  let ?r = "scheduleDailyPrayerNotifications P es vp w"
  let ?ids = "[nextId w..<nextId w + length es]"
  have reg: "registry (snd ?r) = newAlarms P (now w) vp ?ids es"
    by (simp add: scheduleDaily_tracked [OF assms])
  show "fst ?r = Inr ?ids"
    by (simp add: scheduleDaily_tracked [OF assms])
  show "map aid (registry (snd ?r)) = ?ids"
    unfolding reg by (rule map_aid_newAlarms) simp
  show "parseIds (scheduledIds (snd ?r)) = ?ids"
    by (simp add: scheduleDaily_tracked [OF assms] parseIds_def)
  show "nextId (snd ?r) = nextId w + length es"
    by (simp add: scheduleDaily_tracked [OF assms])
qed

lemma tracked_now: "tracked (w\<lparr>now := n\<rparr>) = tracked w"
  by (simp add: tracked_def)

lemma scheduleDaily_keeps_tracked:
  assumes "reliable P" and "tracked w" and "validDates P (now w) es"
  shows "tracked (snd (scheduleDailyPrayerNotifications P es vp w))"
proof -
  let ?w1 = "snd (scheduleDailyPrayerNotifications P es vp w)"
  have "set (map aid (registry ?w1)) = set (parseIds (scheduledIds ?w1))"
    by (simp only: scheduleDaily_tracked_props(2,3) [OF assms])
  then show ?thesis
    unfolding tracked_def list_all_iff by auto
qed

lemma tracked_empty: "tracked emptyWorld"
  by (simp add: tracked_def emptyWorld_def)

lemma entries_length: "length (entries m) = 6" "entries m \<noteq> []"
  by (simp_all add: entries_def)

lemma rollDate_utc:
  "\<bar>dt\<bar> \<le> 8640000000000000 - 86400000 \<Longrightarrow>
   rollDate okPlatform nw dt = Some (if dt \<le> nw then dt + 86400000 else dt)"
  by (simp add: rollDate_def TimeClip_def setDatePlus1_def LocalTime_def UTC_def okPlatform_def
      DAY_def) arith

lemma validDates_times0: "validDates okPlatform nw (entries times0)"
  by (simp add: validDates_def entries_def times0_def rollDate_utc)

text \<open>
  C2 (as amended). On a platform where no call rejects, starting from a device whose
  pending notifications are all tracked by the persisted id list, and with entries whose
  computed dates are valid Dates, two successive runs of
  \<^verbatim>\<open>scheduleDailyPrayerNotifications\<close> on six-entry maps (the clock may have moved in
  between) leave exactly six pending notifications after the second run, not twelve:
  the second run cancels the six of the first and registers six new ones, the persisted
  list is exactly the ids of the new six, and none of the first run's six is left.
\<close>

theorem daily_twice:
  assumes "reliable P" and "tracked w" and "length es1 = 6" and "length es2 = 6"
    and "validDates P (now w) es1" and "validDates P n2 es2"
  shows "let w1 = snd (scheduleDailyPrayerNotifications P es1 vp1 w);
             r2 = scheduleDailyPrayerNotifications P es2 vp2 (w1\<lparr>now := n2\<rparr>);
             w2 = snd r2
         in length (registry w1) = 6 \<and> length (registry w2) = 6
            \<and> fst r2 = Inr (map aid (registry w2))
            \<and> scheduledIds w2 = Some (map aid (registry w2))
            \<and> set (map aid (registry w2)) \<inter> set (map aid (registry w1)) = {}"
proof -
  let ?w1 = "snd (scheduleDailyPrayerNotifications P es1 vp1 w)"
  let ?v = "?w1\<lparr>now := n2\<rparr>"
  let ?r2 = "scheduleDailyPrayerNotifications P es2 vp2 ?v"
  have tr: "tracked ?v"
    by (simp only: tracked_now scheduleDaily_keeps_tracked [OF assms(1,2,5)])
  have v2: "validDates P (now ?v) es2"
    using assms(6) by simp
  have ids1: "map aid (registry ?w1) = [nextId w..<nextId w + 6]"
    using scheduleDaily_tracked_props(2) [OF assms(1,2,5), of vp1] assms(3) by simp
  have nx: "nextId ?v = nextId w + 6"
    using scheduleDaily_tracked_props(4) [OF assms(1,2,5), of vp1] assms(3) by simp
  have ids2: "map aid (registry (snd ?r2)) = [nextId w + 6..<nextId w + 12]"
    using scheduleDaily_tracked_props(2) [OF assms(1) tr v2, of vp2] assms(4) nx
    by (simp add: add.commute)
  have r2: "fst ?r2 = Inr [nextId w + 6..<nextId w + 12]"
    using scheduleDaily_tracked_props(1) [OF assms(1) tr v2, of vp2] assms(4) nx
    by (simp add: add.commute)
  have s2: "scheduledIds (snd ?r2) = Some [nextId w + 6..<nextId w + 12]"
    using assms(4) nx by (auto simp add: scheduleDaily_tracked [OF assms(1) tr v2] add.commute)
  have l1: "length (registry ?w1) = 6"
    using arg_cong [OF ids1, of length] by simp
  have l2: "length (registry (snd ?r2)) = 6"
    using arg_cong [OF ids2, of length] by simp
  have dj: "set (map aid (registry (snd ?r2))) \<inter> set (map aid (registry ?w1)) = {}"
    unfolding ids1 ids2 by auto
  show ?thesis
    unfolding Let_def using l1 l2 r2 s2 dj ids2 by simp
qed

theorem daily_twice_witness:
  "reliable okPlatform \<and> tracked emptyWorld \<and> length (entries times0) = 6
   \<and> validDates okPlatform (now emptyWorld) (entries times0)
   \<and> validDates okPlatform 7 (entries times0)
   \<and> length (registry (snd (scheduleDailyPrayerNotifications okPlatform (entries times0) None
          ((snd (scheduleDailyPrayerNotifications okPlatform (entries times0) None emptyWorld))
             \<lparr>now := 7\<rparr>)))) = 6"
proof -
  have len: "length (entries times0) = 6"
    by (simp add: entries_def)
  show ?thesis
    using daily_twice [OF reliable_ok tracked_empty len len validDates_times0 validDates_times0,
        of None None 7]
    by (simp add: reliable_ok tracked_empty len Let_def validDates_times0)
qed

lemma daily_aids:
  assumes "reliable P" and "validDates P (now w) es"
  shows "map aid (registry (snd (scheduleDailyPrayerNotifications P es vp w)))
           = filter (\<lambda>i. i \<notin> set (parseIds (scheduledIds w))) (map aid (registry w))
               @ [nextId w..<nextId w + length es]"
    and "scheduledIds (snd (scheduleDailyPrayerNotifications P es vp w))
           = (if es = [] then None else Some [nextId w..<nextId w + length es])"
    and "nextId (snd (scheduleDailyPrayerNotifications P es vp w)) = nextId w + length es"
    and "now (snd (scheduleDailyPrayerNotifications P es vp w)) = now w"
    and "fst (scheduleDailyPrayerNotifications P es vp w) = Inr [nextId w..<nextId w + length es]"
proof -
  have len: "length [nextId w..<nextId w + length es] = length es" by simp
  have f: "map aid (filter (\<lambda>a. aid a \<notin> set (parseIds (scheduledIds w))) (registry w))
      = filter (\<lambda>i. i \<notin> set (parseIds (scheduledIds w))) (map aid (registry w))"
    by (simp add: filter_map comp_def)
  show "map aid (registry (snd (scheduleDailyPrayerNotifications P es vp w)))
           = filter (\<lambda>i. i \<notin> set (parseIds (scheduledIds w))) (map aid (registry w))
               @ [nextId w..<nextId w + length es]"
  proof -
    have reg: "registry (snd (scheduleDailyPrayerNotifications P es vp w))
       = filter (\<lambda>a. aid a \<notin> set (parseIds (scheduledIds w))) (registry w)
           @ newAlarms P (now w) vp [nextId w..<nextId w + length es] es"
      by (simp add: scheduleDaily_reliable [OF assms])
    show ?thesis
      unfolding reg map_append f map_aid_newAlarms [OF len] ..
  qed
qed (simp_all add: scheduleDaily_reliable [OF assms])

lemma scheduleTest_registers:
  assumes "\<not> channelFails P" and "\<not> scheduleFails P (nextId w)"
    and "setMinutesPlus P (now w) m = Some d"
  shows "scheduleTestNotification P m vp w =
     (Inr (nextId w, d),
      w\<lparr>scheduledIds := (if storageReadFails P \<or> storageWriteFails P then scheduledIds w
                          else Some (parseIds (scheduledIds w) @ [nextId w])),
        registry := registry w @
          [\<lparr>aid = nextId w, idTag = ''test-'' @ isoString d, title = ''Test Adhan'',
            body = ''This notification will play the active adhan voice when received.'',
            date = d, voicePath = vp\<rparr>],
        nextId := Suc (nextId w)\<rparr>)"
  using assms
  by (simp add: scheduleTestNotification_def ensureNotificationChannel_def
      scheduleNotificationForPrayer_registers)

lemma setMinutesPlus_utc:
  "\<bar>nw + m * 60000\<bar> \<le> 8640000000000000 \<Longrightarrow> setMinutesPlus okPlatform nw m = Some (nw + m * 60000)"
  by (simp add: setMinutesPlus_def TimeClip_def LocalTime_def UTC_def okPlatform_def)

lemma untrackedWorld_eq:
  "fst (scheduleTestNotification writeRejects 1 None emptyWorld) = Inr (0, 60000)
   \<and> scheduledIds untrackedWorld = None \<and> map aid (registry untrackedWorld) = [0]
   \<and> nextId untrackedWorld = 1 \<and> now untrackedWorld = 0"
proof -
  have m: "setMinutesPlus writeRejects (now emptyWorld) 1 = Some 60000"
    by (simp add: setMinutesPlus_def TimeClip_def LocalTime_def UTC_def writeRejects_def
        okPlatform_def emptyWorld_def)
  have p: "\<not> channelFails writeRejects" "\<not> scheduleFails writeRejects (nextId emptyWorld)"
    by (simp_all add: writeRejects_def okPlatform_def)
  show ?thesis
    unfolding untrackedWorld_def scheduleTest_registers [OF p m]
    by (simp add: writeRejects_def okPlatform_def emptyWorld_def)
qed

lemma daily_writeRejects:
  assumes "scheduledIds w = None"
  shows "map aid (registry (snd (scheduleDailyPrayerNotifications writeRejects (entries times0) vp w)))
           = map aid (registry w) @ [nextId w..<nextId w + 6]"
    and "scheduledIds (snd (scheduleDailyPrayerNotifications writeRejects (entries times0) vp w)) = None"
    and "nextId (snd (scheduleDailyPrayerNotifications writeRejects (entries times0) vp w)) = nextId w + 6"
    and "fst (scheduleDailyPrayerNotifications writeRejects (entries times0) vp w)
           = Inr [nextId w..<nextId w + 6]"
proof -
  have p: "\<not> channelFails writeRejects" "\<forall>i. \<not> scheduleFails writeRejects i"
    by (simp_all add: writeRejects_def okPlatform_def)
  have c: "snd (cancelAllScheduledNotifications writeRejects w) = w"
    using assms by (simp add: cancelAll_eq writeRejects_def okPlatform_def parseIds_def)
  have r: "rollDate writeRejects = rollDate okPlatform"
    by (intro ext)
       (simp add: rollDate_def setDatePlus1_def LocalTime_def UTC_def writeRejects_def okPlatform_def
          split: option.splits)
  have v: "validDates writeRejects (now w) (entries times0)"
    using validDates_times0 [of "now w"] by (simp add: validDates_def r)
  have len: "length (entries times0) = 6"
    by (simp add: entries_def)
  have l: "length [nextId w..<nextId w + 6] = length (entries times0)"
    by (simp add: len)
  have loop: "scheduleDailyPrayerNotifications writeRejects (entries times0) vp w =
     (Inr [nextId w..<nextId w + 6],
      w\<lparr>registry := registry w @ newAlarms writeRejects (now w) vp [nextId w..<nextId w + 6] (entries times0),
        nextId := nextId w + 6\<rparr>)"
    unfolding scheduleDaily_unfold [OF p(1)] c scheduleLoop_registers [OF p(2) v] len
    by (simp add: writeRejects_def)
  show "map aid (registry (snd (scheduleDailyPrayerNotifications writeRejects (entries times0) vp w)))
           = map aid (registry w) @ [nextId w..<nextId w + 6]"
  proof -
    have reg: "registry (snd (scheduleDailyPrayerNotifications writeRejects (entries times0) vp w))
       = registry w @ newAlarms writeRejects (now w) vp [nextId w..<nextId w + 6] (entries times0)"
      unfolding loop by simp
    show ?thesis
      unfolding reg map_append map_aid_newAlarms [OF l] ..
  qed
  show "scheduledIds (snd (scheduleDailyPrayerNotifications writeRejects (entries times0) vp w)) = None"
    unfolding loop using assms by simp
  show "nextId (snd (scheduleDailyPrayerNotifications writeRejects (entries times0) vp w)) = nextId w + 6"
    unfolding loop by simp
  show "fst (scheduleDailyPrayerNotifications writeRejects (entries times0) vp w)
           = Inr [nextId w..<nextId w + 6]"
    unfolding loop by simp
qed

text \<open>
  C2 as stated fails. A test notification registered while the storage write rejected
  returns normally and leaves a pending notification outside the persisted list; from
  that state two runs on a platform where nothing rejects leave seven pending
  notifications. And when the storage writes keep rejecting, two runs that both return
  their six ids leave twelve.
\<close>

theorem daily_twice_counterexample:
  "fst (scheduleTestNotification writeRejects 1 None emptyWorld) = Inr (0, 60000)
   \<and> scheduledIds untrackedWorld = None
   \<and> map aid (registry untrackedWorld) = [0]
   \<and> map aid (registry (snd (scheduleDailyPrayerNotifications okPlatform (entries times0) None
        (snd (scheduleDailyPrayerNotifications okPlatform (entries times0) None untrackedWorld)))))
       = [0, 7, 8, 9, 10, 11, 12]
   \<and> fst (scheduleDailyPrayerNotifications writeRejects (entries times0) None emptyWorld)
       = Inr [0, 1, 2, 3, 4, 5]
   \<and> fst (scheduleDailyPrayerNotifications writeRejects (entries times0) None
        (snd (scheduleDailyPrayerNotifications writeRejects (entries times0) None emptyWorld)))
       = Inr [6, 7, 8, 9, 10, 11]
   \<and> map aid (registry (snd (scheduleDailyPrayerNotifications writeRejects (entries times0) None
        (snd (scheduleDailyPrayerNotifications writeRejects (entries times0) None emptyWorld)))))
       = [0, 1, 2, 3, 4, 5, 6, 7, 8, 9, 10, 11]"
proof -
  let ?es = "entries times0"
  let ?u1 = "snd (scheduleDailyPrayerNotifications okPlatform ?es None untrackedWorld)"
  let ?e1 = "snd (scheduleDailyPrayerNotifications writeRejects ?es None emptyWorld)"
  have len: "length ?es = 6" "?es \<noteq> []"
    by (simp_all add: entries_def)
  have u1: "map aid (registry ?u1) = [0, 1, 2, 3, 4, 5, 6]"
    "scheduledIds ?u1 = Some [1, 2, 3, 4, 5, 6]" "nextId ?u1 = 7"
    by (simp_all add: daily_aids [OF reliable_ok validDates_times0] untrackedWorld_eq len
        parseIds_def upt_conv_Cons)
  have u2: "map aid (registry (snd (scheduleDailyPrayerNotifications okPlatform ?es None ?u1)))
       = [0, 7, 8, 9, 10, 11, 12]"
    by (simp add: daily_aids [OF reliable_ok validDates_times0] untrackedWorld_eq len parseIds_def
        upt_conv_Cons)
  have e0: "scheduledIds emptyWorld = None" "nextId emptyWorld = 0" "registry emptyWorld = []"
    by (simp_all add: emptyWorld_def)
  have e1: "map aid (registry ?e1) = [0, 1, 2, 3, 4, 5]" "scheduledIds ?e1 = None" "nextId ?e1 = 6"
    "fst (scheduleDailyPrayerNotifications writeRejects ?es None emptyWorld) = Inr [0, 1, 2, 3, 4, 5]"
    by (simp_all add: daily_writeRejects [OF e0(1)] e0 upt_conv_Cons)
  have e2: "map aid (registry (snd (scheduleDailyPrayerNotifications writeRejects ?es None ?e1)))
       = [0, 1, 2, 3, 4, 5, 6, 7, 8, 9, 10, 11]"
    "fst (scheduleDailyPrayerNotifications writeRejects ?es None ?e1) = Inr [6, 7, 8, 9, 10, 11]"
    by (simp_all add: daily_writeRejects [OF e1(2)] e1 upt_conv_Cons)
  show ?thesis
    using untrackedWorld_eq u2 e1(4) e2 by simp
qed

lemma rollDate_Some:
  "rollDate P nw dt = Some d \<Longrightarrow>
   (nw < dt \<longrightarrow> d = dt) \<and> (dt \<le> nw \<longrightarrow> d = UTC P (LocalTime P dt + DAY))"
  by (auto simp add: rollDate_def TimeClip_def setDatePlus1_def split: option.splits if_splits)

lemma next_local_day:
  assumes "LocalTime P d' = LocalTime P d + DAY"
  shows "wallClock P d' = wallClock P d \<and> calendarDay P d' = calendarDay P d + 1"
proof -
  have "DAY \<noteq> 0" by (simp add: DAY_def)
  then show ?thesis
    unfolding wallClock_def calendarDay_def assms by (simp add: div_add_self2)
qed

lemma fixedOffset_next_day:
  assumes "fixedOffset P c"
  shows "UTC P (LocalTime P d + DAY) = d + DAY \<and> LocalTime P (d + DAY) = LocalTime P d + DAY"
  using assms by (simp add: fixedOffset_def UTC_def LocalTime_def)

lemma newAlarms_dates:
  "length is = length es \<Longrightarrow> validDates P nw es \<Longrightarrow>
   list_all2 (\<lambda>a e. rollDate P nw (snd e) = Some (date a)) (newAlarms P nw vp is es) es"
  unfolding newAlarms_def validDates_def
  by (induction "is" es rule: list_induct2) (auto simp add: dailyAlarm_def)

lemma list_all2_witness:
  "list_all2 R xs ys \<Longrightarrow> x \<in> set xs \<Longrightarrow> \<exists>y \<in> set ys. R x y"
  by (induction rule: list_all2_induct) auto

text \<open>
  C1 (as amended). On a platform where no call rejects, a run of
  \<^verbatim>\<open>scheduleDailyPrayerNotifications\<close> on a six-entry map whose computed dates are valid
  Dates registers exactly six new notifications, one per entry and in the order of the
  entries, after whatever the cancellation step left. An entry whose instant is after
  \<open>now\<close> keeps it. An entry whose instant is at or before \<open>now\<close> gets, once, the date that
  \<^verbatim>\<open>setDate(getDate() + 1)\<close> computes: its local time plus 24 hours, read back as UTC;
  whenever the zone reads that date as that local time, it is the same wall-clock time on
  the next local calendar day. All six dates are strictly after \<open>now\<close> when every rolled
  date is. In a zone whose offset never changes the rolled date is the instant plus 24
  hours, always the same wall-clock time on the next calendar day, and all six dates are
  strictly after \<open>now\<close> when every instant is later than \<open>now\<close> minus one day.
\<close>

theorem daily_rolls_past_instants:
  assumes "reliable P" and "length es = 6" and "validDates P (now w) es"
  shows "\<exists>new. registry (snd (scheduleDailyPrayerNotifications P es vp w))
             = registry (snd (cancelAllScheduledNotifications P w)) @ new
      \<and> fst (scheduleDailyPrayerNotifications P es vp w) = Inr (map aid new)
      \<and> length new = 6
      \<and> list_all2 (\<lambda>a e.
            (now w < snd e \<longrightarrow> date a = snd e)
          \<and> (snd e \<le> now w \<longrightarrow> date a = UTC P (LocalTime P (snd e) + DAY)
               \<and> (LocalTime P (date a) = LocalTime P (snd e) + DAY \<longrightarrow>
                    wallClock P (date a) = wallClock P (snd e)
                    \<and> calendarDay P (date a) = calendarDay P (snd e) + 1))) new es
      \<and> ((\<forall>e \<in> set es. snd e \<le> now w \<longrightarrow> now w < UTC P (LocalTime P (snd e) + DAY))
            \<longrightarrow> (\<forall>a \<in> set new. now w < date a))
      \<and> (\<forall>c. fixedOffset P c \<longrightarrow>
            list_all2 (\<lambda>a e. snd e \<le> now w \<longrightarrow> date a = snd e + DAY
                 \<and> wallClock P (date a) = wallClock P (snd e)
                 \<and> calendarDay P (date a) = calendarDay P (snd e) + 1) new es
            \<and> ((\<forall>e \<in> set es. now w - DAY < snd e) \<longrightarrow> (\<forall>a \<in> set new. now w < date a)))"
proof -
  let ?ids = "[nextId w..<nextId w + length es]"
  let ?new = "newAlarms P (now w) vp ?ids es"
  have len: "length ?ids = length es" by simp
  have reg: "registry (snd (scheduleDailyPrayerNotifications P es vp w))
             = registry (snd (cancelAllScheduledNotifications P w)) @ ?new"
    by (simp add: scheduleDaily_reliable [OF assms(1,3)] cancelAll_reliable [OF assms(1)])
  have res: "fst (scheduleDailyPrayerNotifications P es vp w) = Inr (map aid ?new)"
    by (simp only: map_aid_newAlarms [OF len] scheduleDaily_reliable [OF assms(1,3)] fst_conv)
  have l6: "length ?new = 6"
    using assms(2) by (simp add: length_newAlarms)
  have all2: "list_all2 (\<lambda>a e. rollDate P (now w) (snd e) = Some (date a)) ?new es"
    by (rule newAlarms_dates [OF len assms(3)])
  have rolled: "list_all2 (\<lambda>a e.
            (now w < snd e \<longrightarrow> date a = snd e)
          \<and> (snd e \<le> now w \<longrightarrow> date a = UTC P (LocalTime P (snd e) + DAY)
               \<and> (LocalTime P (date a) = LocalTime P (snd e) + DAY \<longrightarrow>
                    wallClock P (date a) = wallClock P (snd e)
                    \<and> calendarDay P (date a) = calendarDay P (snd e) + 1))) ?new es"
    by (rule list_all2_mono [OF all2]) (use rollDate_Some next_local_day in blast)
  have fut: "(\<forall>e \<in> set es. snd e \<le> now w \<longrightarrow> now w < UTC P (LocalTime P (snd e) + DAY))
            \<longrightarrow> (\<forall>a \<in> set ?new. now w < date a)"
  proof (intro impI ballI)
    fix a
    assume h: "\<forall>e \<in> set es. snd e \<le> now w \<longrightarrow> now w < UTC P (LocalTime P (snd e) + DAY)"
      and a: "a \<in> set ?new"
    from list_all2_witness [OF all2 a]
    obtain e where e: "e \<in> set es" "rollDate P (now w) (snd e) = Some (date a)" by blast
    show "now w < date a"
      using rollDate_Some [OF e(2)] h e(1) by (cases "snd e \<le> now w") auto
  qed
  have fixed: "\<forall>c. fixedOffset P c \<longrightarrow>
            list_all2 (\<lambda>a e. snd e \<le> now w \<longrightarrow> date a = snd e + DAY
                 \<and> wallClock P (date a) = wallClock P (snd e)
                 \<and> calendarDay P (date a) = calendarDay P (snd e) + 1) ?new es
            \<and> ((\<forall>e \<in> set es. now w - DAY < snd e) \<longrightarrow> (\<forall>a \<in> set ?new. now w < date a))"
  proof (intro allI impI conjI ballI)
    fix c
    assume c: "fixedOffset P c"
    show "list_all2 (\<lambda>a e. snd e \<le> now w \<longrightarrow> date a = snd e + DAY
                 \<and> wallClock P (date a) = wallClock P (snd e)
                 \<and> calendarDay P (date a) = calendarDay P (snd e) + 1) ?new es"
    proof (rule list_all2_mono [OF all2], intro impI)
      fix a :: alarm and e :: "string \<times> int"
      assume r: "rollDate P (now w) (snd e) = Some (date a)" and p: "snd e \<le> now w"
      from rollDate_Some [OF r] p fixedOffset_next_day [OF c, of "snd e"]
      have d: "date a = snd e + DAY" by simp
      with fixedOffset_next_day [OF c, of "snd e"]
      have "LocalTime P (date a) = LocalTime P (snd e) + DAY" by simp
      from next_local_day [OF this] d
      show "date a = snd e + DAY \<and> wallClock P (date a) = wallClock P (snd e)
                 \<and> calendarDay P (date a) = calendarDay P (snd e) + 1"
        by simp
    qed
  next
    fix c a
    assume c: "fixedOffset P c" and h: "\<forall>e \<in> set es. now w - DAY < snd e"
      and a: "a \<in> set ?new"
    from list_all2_witness [OF all2 a]
    obtain e where e: "e \<in> set es" "rollDate P (now w) (snd e) = Some (date a)" by blast
    show "now w < date a"
      using rollDate_Some [OF e(2)] h e(1) fixedOffset_next_day [OF c, of "snd e"]
      by (cases "snd e \<le> now w") auto
  qed
  show ?thesis
    using reg res l6 rolled fut fixed by blast
qed

lemma fixedOffset_ok: "fixedOffset okPlatform 0"
  by (simp add: fixedOffset_def okPlatform_def)

theorem daily_rolls_past_instants_witness:
  "reliable okPlatform \<and> length (entries times0) = 6
   \<and> validDates okPlatform (now middayWorld) (entries times0)
   \<and> fixedOffset okPlatform 0
   \<and> list_all (\<lambda>e. now middayWorld - DAY < snd e) (entries times0)
   \<and> (\<exists>new. registry (snd (scheduleDailyPrayerNotifications okPlatform (entries times0) None middayWorld))
             = registry (snd (cancelAllScheduledNotifications okPlatform middayWorld)) @ new
      \<and> fst (scheduleDailyPrayerNotifications okPlatform (entries times0) None middayWorld) = Inr (map aid new)
      \<and> length new = 6
      \<and> list_all (\<lambda>a. now middayWorld < date a) new)"
proof -
  have len: "length (entries times0) = 6"
    by (simp add: entries_def)
  have near: "\<forall>e \<in> set (entries times0). now middayWorld - DAY < snd e"
    by (simp add: entries_def times0_def middayWorld_def emptyWorld_def DAY_def)
  show ?thesis
    using daily_rolls_past_instants [OF reliable_ok len validDates_times0,
          where w = middayWorld and vp = None]
      reliable_ok len near validDates_times0 [of "now middayWorld"] fixedOffset_ok
    unfolding list_all_iff by blast
qed

lemma daily_dates:
  assumes "reliable P" and "validDates P (now w) es" and "tracked w"
  shows "map date (registry (snd (scheduleDailyPrayerNotifications P es vp w)))
           = map (\<lambda>e. the (rollDate P (now w) (snd e))) es"
proof -
  have reg: "registry (snd (scheduleDailyPrayerNotifications P es vp w))
      = newAlarms P (now w) vp [nextId w..<nextId w + length es] es"
    by (simp add: scheduleDaily_tracked [OF assms(1,3,2)])
  show ?thesis
    unfolding reg by (rule map_date_newAlarms) simp
qed

lemma tracked_now_empty: "tracked (emptyWorld\<lparr>now := n\<rparr>)"
  by (simp add: tracked_now tracked_empty)

text \<open>The scenario of the specification: at a clock between dhuhr and asr, the first three roll.\<close>

lemma daily_midday_dates:
  "map date (registry (snd (scheduleDailyPrayerNotifications okPlatform (entries times0) None middayWorld)))
     = [86401000, 86402000, 86403000, 4000, 5000, 6000]"
  unfolding middayWorld_def daily_dates [OF reliable_ok validDates_times0 tracked_now_empty]
  by (simp add: entries_def times0_def rollDate_utc)

text \<open>
  C1 as stated fails: instants that are more than a day old are rolled by one day only,
  and all six notifications are then dated before \<open>now\<close>.
\<close>

theorem daily_stale_counterexample:
  "list_all (\<lambda>e. snd e \<le> now lateWorld) (entries times0)
   \<and> map date (registry (snd (scheduleDailyPrayerNotifications okPlatform (entries times0) None lateWorld)))
       = [86401000, 86402000, 86403000, 86404000, 86405000, 86406000]
   \<and> now lateWorld = 200000000"
  unfolding lateWorld_def daily_dates [OF reliable_ok validDates_times0 tracked_now_empty]
  by (simp add: entries_def times0_def rollDate_utc emptyWorld_def)

text \<open>
  Where the offset changes, the within-a-day guarantee is lost as well: on the day the
  clocks go forward, instants less than 24 hours old are rolled by 23 hours and the first
  three notifications are dated before \<open>now\<close>.
\<close>

lemma reliable_eastern: "reliable eastern2024"
  by (simp add: reliable_def eastern2024_def okPlatform_def)

lemma rollDate_march:
  "rollDate eastern2024 1710088200000 1710003600000 = Some 1710086400000"
  "rollDate eastern2024 1710088200000 1710004000000 = Some 1710086800000"
  "rollDate eastern2024 1710088200000 1710005000000 = Some 1710087800000"
  "rollDate eastern2024 1710088200000 1710006000000 = Some 1710088800000"
  "rollDate eastern2024 1710088200000 1710007000000 = Some 1710089800000"
  "rollDate eastern2024 1710088200000 1710008000000 = Some 1710090800000"
  by (simp_all add: rollDate_def TimeClip_def setDatePlus1_def LocalTime_def UTC_def
      eastern2024_def okPlatform_def DAY_def)

lemma daily_short_day:
  "list_all (\<lambda>e. now marchWorld - DAY < snd e \<and> snd e \<le> now marchWorld) (entries marchTimes)
   \<and> map date (registry (snd (scheduleDailyPrayerNotifications eastern2024 (entries marchTimes) None marchWorld)))
       = [1710086400000, 1710086800000, 1710087800000, 1710088800000, 1710089800000, 1710090800000]
   \<and> now marchWorld = 1710088200000"
proof -
  have v: "validDates eastern2024 1710088200000 (entries marchTimes)"
    by (simp add: validDates_def entries_def marchTimes_def rollDate_march)
  show ?thesis
    unfolding marchWorld_def daily_dates [OF reliable_eastern, of "emptyWorld\<lparr>now := 1710088200000\<rparr>",
        simplified, OF v tracked_now_empty]
    by (simp add: entries_def marchTimes_def rollDate_march emptyWorld_def DAY_def)
qed

lemma filter_filter_same: "filter p (filter p xs) = filter p xs"
  by (induction xs) simp_all

lemma cancelAll_registry:
  "registry (snd (cancelAllScheduledNotifications P w)) =
     (if storageReadFails P then registry w
      else filter (\<lambda>a. \<not> (aid a \<in> set (parseIds (scheduledIds w)) \<and> \<not> cancelFails P (aid a))) (registry w))"
  by (simp add: cancelAll_eq)

lemma cancelAll_idem:
  "cancelAllScheduledNotifications P (snd (cancelAllScheduledNotifications P w))
     = cancelAllScheduledNotifications P w"
  by (simp add: cancelAll_eq parseIds_def filter_filter_same)

text \<open>
  C5 (as amended). \<^verbatim>\<open>cancelAllScheduledNotifications\<close> never propagates a failure.
  When the persisted list can be read, every id of the list whose own cancellation does
  not reject is removed from the registry, whatever happens to the other ids. When
  moreover no cancellation rejects and the storage can be written, the persisted list is
  cleared. With an empty persisted list the call changes neither the registry nor the
  (empty) list, and a second call in a row changes nothing more.
\<close>

theorem cancelAll_best_effort:
  "fst (cancelAllScheduledNotifications P w) = Inr ()
   \<and> (\<not> storageReadFails P \<longrightarrow>
        registry (snd (cancelAllScheduledNotifications P w)) =
          filter (\<lambda>a. \<not> (aid a \<in> set (parseIds (scheduledIds w)) \<and> \<not> cancelFails P (aid a))) (registry w))
   \<and> (\<not> storageReadFails P \<and> \<not> storageWriteFails P
        \<and> \<not> list_ex (cancelFails P) (parseIds (scheduledIds w)) \<longrightarrow>
        scheduledIds (snd (cancelAllScheduledNotifications P w)) = None
        \<and> (\<forall>a \<in> set (registry (snd (cancelAllScheduledNotifications P w))).
              aid a \<notin> set (parseIds (scheduledIds w))))
   \<and> (parseIds (scheduledIds w) = [] \<longrightarrow>
        registry (snd (cancelAllScheduledNotifications P w)) = registry w
        \<and> parseIds (scheduledIds (snd (cancelAllScheduledNotifications P w))) = [])
   \<and> cancelAllScheduledNotifications P (snd (cancelAllScheduledNotifications P w))
        = cancelAllScheduledNotifications P w"
proof (intro conjI impI)
  show "fst (cancelAllScheduledNotifications P w) = Inr ()"
    by (simp add: cancelAll_eq)
next
  assume "\<not> storageReadFails P"
  then show "registry (snd (cancelAllScheduledNotifications P w)) =
          filter (\<lambda>a. \<not> (aid a \<in> set (parseIds (scheduledIds w)) \<and> \<not> cancelFails P (aid a))) (registry w)"
    by (simp add: cancelAll_registry)
next
  assume h: "\<not> storageReadFails P \<and> \<not> storageWriteFails P
        \<and> \<not> list_ex (cancelFails P) (parseIds (scheduledIds w))"
  then show "scheduledIds (snd (cancelAllScheduledNotifications P w)) = None"
    by (simp add: cancelAll_eq)
  from h show "\<forall>a \<in> set (registry (snd (cancelAllScheduledNotifications P w))).
              aid a \<notin> set (parseIds (scheduledIds w))"
    by (auto simp add: cancelAll_registry list_ex_iff)
next
  assume e: "parseIds (scheduledIds w) = []"
  then show "registry (snd (cancelAllScheduledNotifications P w)) = registry w"
    by (simp add: cancelAll_registry)
  from e show "parseIds (scheduledIds (snd (cancelAllScheduledNotifications P w))) = []"
    by (simp add: cancelAll_eq) (simp add: parseIds_def)
next
  show "cancelAllScheduledNotifications P (snd (cancelAllScheduledNotifications P w))
        = cancelAllScheduledNotifications P w"
    by (rule cancelAll_idem)
qed

lemma scheduledWorld_eq:
  "scheduledIds scheduledWorld = Some [0, 1, 2, 3, 4, 5]
   \<and> map aid (registry scheduledWorld) = [0, 1, 2, 3, 4, 5]"
  by (simp add: scheduledWorld_def daily_aids [OF reliable_ok validDates_times0] emptyWorld_def
      entries_length parseIds_def upt_conv_Cons)

lemma tracked_scheduledWorld: "tracked scheduledWorld"
  unfolding scheduledWorld_def
  by (rule scheduleDaily_keeps_tracked [OF reliable_ok tracked_empty validDates_times0])

lemma map_aid_filter:
  "map aid (filter (\<lambda>a. q (aid a)) xs) = filter q (map aid xs)"
  by (induction xs) simp_all

theorem cancelAll_best_effort_witness:
  "\<not> storageReadFails okPlatform \<and> \<not> storageWriteFails okPlatform
   \<and> \<not> list_ex (cancelFails okPlatform) (parseIds (scheduledIds scheduledWorld))
   \<and> parseIds (scheduledIds scheduledWorld) = [0, 1, 2, 3, 4, 5]
   \<and> scheduledIds (snd (cancelAllScheduledNotifications okPlatform scheduledWorld)) = None
   \<and> list_all (\<lambda>a. aid a \<notin> set (parseIds (scheduledIds scheduledWorld)))
         (registry (snd (cancelAllScheduledNotifications okPlatform scheduledWorld)))
   \<and> parseIds (scheduledIds emptyWorld) = []
   \<and> registry (snd (cancelAllScheduledNotifications okPlatform emptyWorld)) = registry emptyWorld"
proof -
  have ok: "\<not> storageReadFails okPlatform \<and> \<not> storageWriteFails okPlatform
     \<and> \<not> list_ex (cancelFails okPlatform) (parseIds (scheduledIds scheduledWorld))"
    by (simp add: okPlatform_def list_ex_iff)
  have ids: "parseIds (scheduledIds scheduledWorld) = [0, 1, 2, 3, 4, 5]"
    by (simp add: scheduledWorld_eq parseIds_def)
  have emp: "parseIds (scheduledIds emptyWorld) = []"
    by (simp add: emptyWorld_def parseIds_def)
  show ?thesis
    using cancelAll_best_effort [of okPlatform scheduledWorld]
      cancelAll_best_effort [of okPlatform emptyWorld] ok ids emp
    unfolding list_all_iff by blast
qed

text \<open>
  C5 as stated fails: when the cancellation of one id rejects, the combined promise
  rejects, the catch swallows it and the persisted list is not cleared.
\<close>

theorem cancelAll_failure_counterexample:
  "cancelFails failFirst 0
   \<and> scheduledIds scheduledWorld = Some [0, 1, 2, 3, 4, 5]
   \<and> scheduledIds (snd (cancelAllScheduledNotifications failFirst scheduledWorld)) = Some [0, 1, 2, 3, 4, 5]
   \<and> map aid (registry (snd (cancelAllScheduledNotifications failFirst scheduledWorld))) = [0]"
proof -
  have f: "cancelFails failFirst = (\<lambda>i. i = 0)" "\<not> storageReadFails failFirst"
    by (simp_all add: failFirst_def okPlatform_def)
  have ids: "parseIds (scheduledIds scheduledWorld) = [0, 1, 2, 3, 4, 5]"
    by (simp add: scheduledWorld_eq parseIds_def)
  have "map aid (registry (snd (cancelAllScheduledNotifications failFirst scheduledWorld)))
      = filter (\<lambda>i. \<not> (i \<in> set [0, 1, 2, 3, 4, 5] \<and> \<not> i = 0)) (map aid (registry scheduledWorld))"
    unfolding cancelAll_registry ids f
    by (simp only: f if_False) (rule map_aid_filter)
  then have reg: "map aid (registry (snd (cancelAllScheduledNotifications failFirst scheduledWorld))) = [0]"
    by (simp add: scheduledWorld_eq)
  have lst: "scheduledIds (snd (cancelAllScheduledNotifications failFirst scheduledWorld)) = Some [0, 1, 2, 3, 4, 5]"
    by (simp add: cancelAll_eq f scheduledWorld_eq parseIds_def)
  show ?thesis
    using reg lst by (simp add: f scheduledWorld_eq)
qed

lemma scheduleTest_reliable:
  assumes "reliable P" and "setMinutesPlus P (now w) m = Some d"
  shows "scheduleTestNotification P m vp w =
     (Inr (nextId w, d),
      w\<lparr>scheduledIds := Some (parseIds (scheduledIds w) @ [nextId w]),
        registry := registry w @
          [\<lparr>aid = nextId w, idTag = ''test-'' @ isoString d, title = ''Test Adhan'',
            body = ''This notification will play the active adhan voice when received.'',
            date = d, voicePath = vp\<rparr>],
        nextId := Suc (nextId w)\<rparr>)"
proof -
  have r: "\<not> channelFails P" "\<not> scheduleFails P (nextId w)"
    "\<not> storageReadFails P" "\<not> storageWriteFails P"
    using assms(1) by (simp_all add: reliable_def)
  show ?thesis
    unfolding scheduleTest_registers [OF r(1,2) assms(2)] by (simp add: r)
qed

lemma scheduleTest_keeps_tracked:
  assumes "reliable P" and "tracked w" and "setMinutesPlus P (now w) m = Some d"
  shows "tracked (snd (scheduleTestNotification P m vp w))"
  using assms(2)
  by (auto simp add: scheduleTest_reliable [OF assms(1,3)] tracked_def parseIds_def list_all_iff)

lemma cancelAll_keeps_tracked:
  "tracked w \<Longrightarrow> tracked (snd (cancelAllScheduledNotifications P w))"
  by (auto simp add: cancelAll_eq tracked_def list_all_iff parseIds_def list_ex_iff)

lemma scheduleNotificationForPrayer_step:
  "a \<in> set (registry (snd (scheduleNotificationForPrayer P tg ti bo d vp w))) \<Longrightarrow>
   a \<in> set (registry w) \<or> nextId w \<le> aid a"
  by (auto simp add: scheduleNotificationForPrayer_def scheduleNotificationAsync_def persistId_def
      split: if_splits)

lemma scheduleNotificationForPrayer_nextId:
  "nextId w \<le> nextId (snd (scheduleNotificationForPrayer P tg ti bo d vp w))"
  by (simp add: scheduleNotificationForPrayer_def scheduleNotificationAsync_def persistId_def)

lemma scheduleLoop_new_ids:
  "a \<in> set (registry (snd (scheduleLoop P es vp acc w))) \<Longrightarrow>
   a \<in> set (registry w) \<or> nextId w \<le> aid a"
proof (induction es arbitrary: acc w)
  case Nil
  then show ?case by simp
next
  case (Cons e es)
  obtain name dt where e: "e = (name, dt)" by (cases e)
  show ?case
  proof (cases "rollDate P (now w) dt")
    case None
    with Cons.prems show ?thesis by (simp add: e)
  next
    case (Some d)
    let ?s = "scheduleNotificationForPrayer P (name @ ''-'' @ take 10 (isoString d))
                (name @ '' prayer time'') (''It's time for '' @ name @ '' prayer'') d vp w"
    show ?thesis
    proof (cases "fst ?s")
      case (Inl x)
      with Cons.prems Some have "a \<in> set (registry (snd ?s))"
        by (simp add: e split: prod.splits)
      then show ?thesis by (rule scheduleNotificationForPrayer_step)
    next
      case (Inr i)
      with Cons.prems Some
      have "a \<in> set (registry (snd (scheduleLoop P es vp (acc @ [i]) (snd ?s))))"
        by (simp add: e split: prod.splits)
      from Cons.IH [OF this]
      have "a \<in> set (registry (snd ?s)) \<or> nextId (snd ?s) \<le> aid a" .
      then show ?thesis
        using scheduleNotificationForPrayer_step [of a P _ _ _ d vp w]
          scheduleNotificationForPrayer_nextId [of w P _ _ _ d vp]
        by (meson order_trans)
    qed
  qed
qed

text \<open>
  C4 (as amended). Whenever \<^verbatim>\<open>scheduleTestNotification\<close> registers its notification (no
  platform call rejects and the date it computes is a valid Date), it returns the new id
  and appends it to the same persisted id list that the daily notifications use: there
  is no separate namespace. A later \<^verbatim>\<open>cancelAllScheduledNotifications\<close>, and likewise a
  later \<^verbatim>\<open>scheduleDailyPrayerNotifications\<close> on any map, therefore cancels the test
  notification too.
\<close>

theorem test_alarm_shares_id_list:
  assumes "reliable P" and "setMinutesPlus P (now w) m = Some d"
  shows "fst (scheduleTestNotification P m vp w) = Inr (nextId w, d)
   \<and> scheduledIds (snd (scheduleTestNotification P m vp w)) = Some (parseIds (scheduledIds w) @ [nextId w])
   \<and> nextId w \<in> set (map aid (registry (snd (scheduleTestNotification P m vp w))))
   \<and> nextId w \<notin> set (map aid (registry (snd (cancelAllScheduledNotifications P
          (snd (scheduleTestNotification P m vp w))))))
   \<and> nextId w \<notin> set (map aid (registry (snd (scheduleDailyPrayerNotifications P es vp'
          (snd (scheduleTestNotification P m vp w))))))"
proof -
  let ?w1 = "snd (scheduleTestNotification P m vp w)"
  let ?c = "snd (cancelAllScheduledNotifications P ?w1)"
  have ids: "parseIds (scheduledIds ?w1) = parseIds (scheduledIds w) @ [nextId w]"
    by (simp add: scheduleTest_reliable [OF assms]) (simp add: parseIds_def)
  have c: "nextId w \<notin> set (map aid (registry ?c))"
    by (auto simp add: cancelAll_reliable [OF assms(1)] ids)
  have nx: "nextId ?c = Suc (nextId w)"
    by (simp add: cancelAll_reliable [OF assms(1)] scheduleTest_reliable [OF assms])
  have ch: "\<not> channelFails P"
    using assms(1) by (simp add: reliable_def)
  have d: "nextId w \<notin> set (map aid (registry (snd (scheduleDailyPrayerNotifications P es vp' ?w1))))"
  proof
    assume "nextId w \<in> set (map aid (registry (snd (scheduleDailyPrayerNotifications P es vp' ?w1))))"
    then obtain a where a: "a \<in> set (registry (snd (scheduleLoop P es vp' [] ?c)))" "aid a = nextId w"
      unfolding scheduleDaily_unfold [OF ch] by auto
    from scheduleLoop_new_ids [OF a(1)]
    have "a \<in> set (registry ?c) \<or> nextId ?c \<le> aid a" .
    then show False
    proof
      assume "a \<in> set (registry ?c)"
      then have "aid a \<in> set (map aid (registry ?c))" by simp
      with c a(2) show False by simp
    next
      assume "nextId ?c \<le> aid a"
      with nx a(2) show False by simp
    qed
  qed
  show ?thesis
    using c d by (simp add: scheduleTest_reliable [OF assms])
qed

theorem test_alarm_shares_id_list_witness:
  "reliable okPlatform
   \<and> setMinutesPlus okPlatform (now scheduledWorld) 1 = Some 60000
   \<and> fst (scheduleTestNotification okPlatform 1 None scheduledWorld) = Inr (6, 60000)
   \<and> scheduledIds (snd (scheduleTestNotification okPlatform 1 None scheduledWorld)) = Some [0, 1, 2, 3, 4, 5, 6]
   \<and> 6 \<notin> set (map aid (registry (snd (cancelAllScheduledNotifications okPlatform
          (snd (scheduleTestNotification okPlatform 1 None scheduledWorld))))))"
proof -
  have nx: "nextId scheduledWorld = 6" "now scheduledWorld = 0"
    by (simp_all add: scheduledWorld_def daily_aids [OF reliable_ok validDates_times0] emptyWorld_def
        entries_length)
  have m: "setMinutesPlus okPlatform (now scheduledWorld) 1 = Some 60000"
    by (simp add: nx setMinutesPlus_utc)
  have ids: "parseIds (scheduledIds scheduledWorld) = [0, 1, 2, 3, 4, 5]"
    by (simp add: scheduledWorld_eq parseIds_def)
  show ?thesis
    using test_alarm_shares_id_list [OF reliable_ok m, where es = "[]" and vp = None and vp' = None]
    by (simp add: nx ids reliable_ok setMinutesPlus_utc)
qed

text \<open>
  C4 as stated fails: after a test notification the persisted id list has gained the
  test id 6, and a cancel-all then empties the registry, test notification included.
\<close>

theorem test_alarm_counterexample:
  "scheduledIds scheduledWorld = Some [0, 1, 2, 3, 4, 5]
   \<and> scheduledIds (snd (scheduleTestNotification okPlatform 1 None scheduledWorld)) = Some [0, 1, 2, 3, 4, 5, 6]
   \<and> map aid (registry (snd (scheduleTestNotification okPlatform 1 None scheduledWorld))) = [0, 1, 2, 3, 4, 5, 6]
   \<and> registry (snd (cancelAllScheduledNotifications okPlatform
          (snd (scheduleTestNotification okPlatform 1 None scheduledWorld)))) = []"
proof -
  have nx: "nextId scheduledWorld = 6" "now scheduledWorld = 0"
    by (simp_all add: scheduledWorld_def daily_aids [OF reliable_ok validDates_times0] emptyWorld_def
        entries_length)
  have m: "setMinutesPlus okPlatform (now scheduledWorld) 1 = Some 60000"
    by (simp add: nx setMinutesPlus_utc)
  have tr: "tracked (snd (scheduleTestNotification okPlatform 1 None scheduledWorld))"
    by (rule scheduleTest_keeps_tracked [OF reliable_ok tracked_scheduledWorld m])
  have "registry (snd (cancelAllScheduledNotifications okPlatform
          (snd (scheduleTestNotification okPlatform 1 None scheduledWorld)))) = []"
    by (simp add: cancelAll_reliable [OF reliable_ok] tracked_filter [OF tr])
  then show ?thesis
    by (simp add: scheduleTest_reliable [OF reliable_ok m] scheduledWorld_eq nx parseIds_def)
qed

text \<open>
  The date of the test notification is computed in local time. In the repeated hour of
  the sample zone a test notification asked for one minute ahead is dated 59 minutes
  before \<open>now\<close>; and a number of minutes that leaves the Date range makes the call throw
  without registering anything.
\<close>

lemma test_repeated_hour:
  "now novemberWorld = 1730615400000
   \<and> fst (scheduleTestNotification eastern2024 1 None novemberWorld) = Inr (0, 1730611860000)"
proof -
  have m: "setMinutesPlus eastern2024 (now novemberWorld) 1 = Some 1730611860000"
    by (simp add: setMinutesPlus_def TimeClip_def LocalTime_def UTC_def eastern2024_def
        okPlatform_def novemberWorld_def emptyWorld_def)
  show ?thesis
    by (simp add: scheduleTest_reliable [OF reliable_eastern m])
       (simp add: novemberWorld_def emptyWorld_def)
qed

lemma test_out_of_range:
  "scheduleTestNotification okPlatform 200000000000000 None emptyWorld = (Inl RangeError, emptyWorld)"
  by (simp add: scheduleTestNotification_def ensureNotificationChannel_def setMinutesPlus_def
      TimeClip_def LocalTime_def UTC_def okPlatform_def emptyWorld_def)

section \<open>Properties of the voice selector and of onSchedule\<close>

lemma toLowerCase_dhuhr: "toLowerCase ''dhuhr'' = ''dhuhr''"
  by (simp add: toLowerCase_def lowerChar_def)

lemma toLowerCase_Fajr: "toLowerCase ''Fajr'' = ''fajr''"
  by (simp add: toLowerCase_def lowerChar_def)



lemma fresh_dhuhr: "getAdhanUrlForPrayer freshSelector ''dhuhr'' = Inr ''https://www.islamcan.com/audio/adhan/azan1.mp3''"
  by (simp add: getAdhanUrlForPrayer_def toLowerCase_dhuhr getSelectedRegularAdhan_def getItem_def
      freshSelector_def orDefault_def getAdhanVoiceById_def ADHAN_VOICES_def getInfoAsync_def localPathOf_def)

lemma fresh_fajr: "getAdhanUrlForPrayer freshSelector ''fajr'' = Inr ''https://www.islamcan.com/audio/adhan/azan7.mp3''"
  by (simp add: getAdhanUrlForPrayer_def toLowerCase_def lowerChar_def getSelectedFajrAdhan_def getItem_def
      freshSelector_def orDefault_def getAdhanVoiceById_def ADHAN_VOICES_def getInfoAsync_def localPathOf_def)



lemma madinah_voice:
  "getAdhanVoiceById ''madinah-regular'' =
     Some \<lparr>v_id = ''madinah-regular'', v_name = ''Madinah Adhan'', v_reciter = ''Sheikh Essam Bukhari'',
           v_type = Regular, v_previewUrl = ''https://www.islamcan.com/audio/adhan/azan2.mp3'',
           v_downloadUrl = ''https://www.islamcan.com/audio/adhan/azan2.mp3''\<rparr>"
  by (simp add: getAdhanVoiceById_def ADHAN_VOICES_def)

text \<open>The stored selection decides: the selected Madinah voice streams azan2 until it is downloaded.\<close>

lemma madinah_not_downloaded:
  "getAdhanUrlForPrayer madinahSelector ''dhuhr'' = Inr ''https://www.islamcan.com/audio/adhan/azan2.mp3''"
  by (simp add: getAdhanUrlForPrayer_def toLowerCase_dhuhr getSelectedRegularAdhan_def getItem_def
      madinahSelector_def freshSelector_def orDefault_def madinah_voice getInfoAsync_def localPathOf_def)


lemma getAdhanUrlForPrayer_never_raises_aux:
  "\<exists>u. getAdhanUrlForPrayer S prayerName = Inr u"
  by (auto simp add: getAdhanUrlForPrayer_def Let_def getSelectedFajrAdhan_def
      getSelectedRegularAdhan_def getItem_def getInfoAsync_def split: option.splits sum.splits bool.splits)

lemma takeWhile_until:
  "c \<notin> set xs \<Longrightarrow> takeWhile (\<lambda>x. x \<noteq> c) (xs @ c # ys) = xs"
  by (induction xs) auto

lemma alarmName_dailyAlarm:
  "CHR ''-'' \<notin> set name \<Longrightarrow> alarmName (dailyAlarm vp i name d) = name"
  by (simp add: alarmName_def dailyAlarm_def takeWhile_until)

lemma map_name_voice_newAlarms:
  "length is = length es \<Longrightarrow> \<forall>e \<in> set es. CHR ''-'' \<notin> set (fst e) \<Longrightarrow>
   map (\<lambda>a. (alarmName a, voicePath a)) (newAlarms P nw vp is es) = map (\<lambda>e. (fst e, vp)) es"
  unfolding newAlarms_def
  by (induction "is" es rule: list_induct2) (simp_all add: alarmName_dailyAlarm, simp add: dailyAlarm_def)

lemma map_alarmName_newAlarms:
  "length is = length es \<Longrightarrow> \<forall>e \<in> set es. CHR ''-'' \<notin> set (fst e) \<Longrightarrow>
   map alarmName (newAlarms P nw vp is es) = map fst es"
  unfolding newAlarms_def
  by (induction "is" es rule: list_induct2) (simp_all add: alarmName_dailyAlarm)

lemma voicePath_newAlarms:
  "a \<in> set (newAlarms P nw vp is es) \<Longrightarrow> voicePath a = vp"
  by (auto simp add: newAlarms_def dailyAlarm_def)

lemma getAdhanUrl_regular_class:
  "toLowerCase n \<noteq> ''fajr'' \<Longrightarrow> getAdhanUrlForPrayer S n = getAdhanUrlForPrayer S ''dhuhr''"
  by (simp add: getAdhanUrlForPrayer_def toLowerCase_dhuhr)

text \<open>
  C3 (as amended). On a run of \<^verbatim>\<open>onSchedule\<close> that succeeds (the permission is
  granted, no platform call rejects and the dates computed for the six instants are valid
  Dates), one audio reference \<open>u\<close> is resolved, once, for the regular class (the
  resolver gives the same answer for every prayer name other than fajr), and six
  notifications are registered in the order fajr, sunrise, dhuhr, asr, maghrib, isha.
  The dhuhr, asr, maghrib and isha notifications carry \<open>u\<close>; the sunrise notification is
  scheduled like them and carries \<open>u\<close> as well.
\<close>

theorem onSchedule_regular_reference:
  assumes "reliable P" and "validDates P (now w) (entries prayerTimes)"
  shows "\<exists>u new. getAdhanUrlForPrayer S ''dhuhr'' = Inr u
     \<and> (\<forall>n. toLowerCase n \<noteq> ''fajr'' \<longrightarrow> getAdhanUrlForPrayer S n = Inr u)
     \<and> fst (onSchedule P S True prayerTimes w) = Inr ()
     \<and> registry (snd (onSchedule P S True prayerTimes w))
          = registry (snd (cancelAllScheduledNotifications P w)) @ new
     \<and> map alarmName new = [''fajr'', ''sunrise'', ''dhuhr'', ''asr'', ''maghrib'', ''isha'']
     \<and> (\<forall>a \<in> set new. alarmName a \<in> {''sunrise'', ''dhuhr'', ''asr'', ''maghrib'', ''isha''}
            \<longrightarrow> voicePath a = Some u)"
proof -
  obtain u where u: "getAdhanUrlForPrayer S ''dhuhr'' = Inr u"
    using getAdhanUrlForPrayer_never_raises_aux [of S "''dhuhr''"] by blast
  let ?es = "entries prayerTimes"
  let ?ids = "[nextId w..<nextId w + length ?es]"
  let ?new = "newAlarms P (now w) (Some u) ?ids ?es"
  have len: "length ?ids = length ?es" by simp
  have ch: "\<not> channelFails P"
    using assms(1) by (simp add: reliable_def)
  have run: "onSchedule P S True prayerTimes w =
      (Inr (), snd (scheduleDailyPrayerNotifications P ?es (Some u) w))"
    by (simp add: onSchedule_def ensureNotificationChannel_def ch u split: prod.splits)
  have reg: "registry (snd (onSchedule P S True prayerTimes w))
          = registry (snd (cancelAllScheduledNotifications P w)) @ ?new"
    by (simp add: run scheduleDaily_reliable [OF assms] cancelAll_reliable [OF assms(1)])
  have hy: "\<forall>e \<in> set ?es. CHR ''-'' \<notin> set (fst e)"
    by (simp add: entries_def)
  have names: "map alarmName ?new = [''fajr'', ''sunrise'', ''dhuhr'', ''asr'', ''maghrib'', ''isha'']"
    by (simp only: map_alarmName_newAlarms [OF len hy]) (simp add: entries_def)
  have vps: "\<forall>a \<in> set ?new. alarmName a \<in> {''sunrise'', ''dhuhr'', ''asr'', ''maghrib'', ''isha''}
            \<longrightarrow> voicePath a = Some u"
    using voicePath_newAlarms by blast
  have cls: "\<forall>n. toLowerCase n \<noteq> ''fajr'' \<longrightarrow> getAdhanUrlForPrayer S n = Inr u"
    using getAdhanUrl_regular_class u by simp
  show ?thesis
    using u cls run reg names vps by (intro exI [of _ u] exI [of _ ?new]) simp
qed

lemma onSchedule_fresh:
  "map (\<lambda>a. (alarmName a, voicePath a))
      (registry (snd (onSchedule okPlatform freshSelector True times0 emptyWorld)))
   = [(''fajr'', Some ''https://www.islamcan.com/audio/adhan/azan1.mp3''),
      (''sunrise'', Some ''https://www.islamcan.com/audio/adhan/azan1.mp3''),
      (''dhuhr'', Some ''https://www.islamcan.com/audio/adhan/azan1.mp3''),
      (''asr'', Some ''https://www.islamcan.com/audio/adhan/azan1.mp3''),
      (''maghrib'', Some ''https://www.islamcan.com/audio/adhan/azan1.mp3''),
      (''isha'', Some ''https://www.islamcan.com/audio/adhan/azan1.mp3'')]"
proof -
  have ch: "\<not> channelFails okPlatform"
    by (simp add: okPlatform_def)
  have run: "snd (onSchedule okPlatform freshSelector True times0 emptyWorld) =
      snd (scheduleDailyPrayerNotifications okPlatform (entries times0)
             (Some ''https://www.islamcan.com/audio/adhan/azan1.mp3'') emptyWorld)"
    by (simp add: onSchedule_def ensureNotificationChannel_def ch fresh_dhuhr split: prod.splits)
  let ?ids = "[nextId emptyWorld..<nextId emptyWorld + length (entries times0)]"
  have reg: "registry (snd (scheduleDailyPrayerNotifications okPlatform (entries times0)
             (Some ''https://www.islamcan.com/audio/adhan/azan1.mp3'') emptyWorld))
      = newAlarms okPlatform (now emptyWorld)
          (Some ''https://www.islamcan.com/audio/adhan/azan1.mp3'') ?ids (entries times0)"
    by (simp add: scheduleDaily_tracked [OF reliable_ok tracked_empty validDates_times0])
  have len: "length ?ids = length (entries times0)" by simp
  have hy: "\<forall>e \<in> set (entries times0). CHR ''-'' \<notin> set (fst e)"
    by (simp add: entries_def)
  show ?thesis
    unfolding run reg map_name_voice_newAlarms [OF len hy]
    by (simp add: entries_def)
qed

theorem onSchedule_regular_reference_witness:
  "reliable okPlatform
   \<and> validDates okPlatform (now emptyWorld) (entries times0)
   \<and> getAdhanUrlForPrayer freshSelector ''dhuhr'' = Inr ''https://www.islamcan.com/audio/adhan/azan1.mp3''
   \<and> fst (onSchedule okPlatform freshSelector True times0 emptyWorld) = Inr ()
   \<and> map (\<lambda>a. (alarmName a, voicePath a))
        (tl (registry (snd (onSchedule okPlatform freshSelector True times0 emptyWorld))))
      = [(''sunrise'', Some ''https://www.islamcan.com/audio/adhan/azan1.mp3''),
         (''dhuhr'', Some ''https://www.islamcan.com/audio/adhan/azan1.mp3''),
         (''asr'', Some ''https://www.islamcan.com/audio/adhan/azan1.mp3''),
         (''maghrib'', Some ''https://www.islamcan.com/audio/adhan/azan1.mp3''),
         (''isha'', Some ''https://www.islamcan.com/audio/adhan/azan1.mp3'')]"
proof -
  have t: "map (\<lambda>a. (alarmName a, voicePath a))
        (tl (registry (snd (onSchedule okPlatform freshSelector True times0 emptyWorld))))
      = tl (map (\<lambda>a. (alarmName a, voicePath a))
        (registry (snd (onSchedule okPlatform freshSelector True times0 emptyWorld))))"
    by (simp add: map_tl)
  show ?thesis
    using onSchedule_regular_reference [OF reliable_ok validDates_times0,
        where S = freshSelector and w = emptyWorld]
    unfolding t onSchedule_fresh
    by (auto simp add: reliable_ok fresh_dhuhr validDates_times0)
qed

text \<open>
  C3 as stated fails: on a fresh install the dawn class resolves to azan7, yet the fajr
  notification carries azan1, the reference resolved for the regular class, and the
  sunrise notification carries that reference too instead of none.
\<close>

theorem onSchedule_fajr_counterexample:
  "getAdhanUrlForPrayer freshSelector ''fajr'' = Inr ''https://www.islamcan.com/audio/adhan/azan7.mp3''
   \<and> map (\<lambda>a. (alarmName a, voicePath a))
      (registry (snd (onSchedule okPlatform freshSelector True times0 emptyWorld)))
   = [(''fajr'', Some ''https://www.islamcan.com/audio/adhan/azan1.mp3''),
      (''sunrise'', Some ''https://www.islamcan.com/audio/adhan/azan1.mp3''),
      (''dhuhr'', Some ''https://www.islamcan.com/audio/adhan/azan1.mp3''),
      (''asr'', Some ''https://www.islamcan.com/audio/adhan/azan1.mp3''),
      (''maghrib'', Some ''https://www.islamcan.com/audio/adhan/azan1.mp3''),
      (''isha'', Some ''https://www.islamcan.com/audio/adhan/azan1.mp3'')]"
  by (simp only: fresh_fajr onSchedule_fresh simp_thms)

section \<open>Properties of the voice manager\<close>

lemma listDownloadedVoices_eq:
  "\<not> kvGetFails F \<Longrightarrow> listDownloadedVoices F w = Inr (parseVoices (downloadedVoices w))"
  by (simp add: listDownloadedVoices_def getDownloadedItem_def)

lemma getActiveVoice_eq:
  "\<not> kvGetFails F \<Longrightarrow>
   getActiveVoice F w =
     Inr (if falsy (activeVoiceId w) then None
          else List.find (\<lambda>a. Some (m_id a) = activeVoiceId w) (parseVoices (downloadedVoices w)))"
  by (simp add: getActiveVoice_def getActiveItem_def listDownloadedVoices_eq)

text \<open>
  C10. When the storage can be read, \<^verbatim>\<open>getActiveVoice\<close> returns either null or a record
  that is an element of \<^verbatim>\<open>listDownloadedVoices()\<close> and whose id is the stored active id;
  when the stored active id is the id of no downloaded record, it returns null.
\<close>

theorem getActiveVoice_in_index:
  assumes "\<not> kvGetFails F"
  shows "(getActiveVoice F w = Inr None
          \<or> (\<exists>m arr. getActiveVoice F w = Inr (Some m) \<and> listDownloadedVoices F w = Inr arr
                \<and> m \<in> set arr \<and> activeVoiceId w = Some (m_id m)))
     \<and> (\<forall>i. activeVoiceId w = Some i \<and> i \<notin> m_id ` set (parseVoices (downloadedVoices w))
            \<longrightarrow> getActiveVoice F w = Inr None)"
proof (intro conjI allI impI)
  show "getActiveVoice F w = Inr None
          \<or> (\<exists>m arr. getActiveVoice F w = Inr (Some m) \<and> listDownloadedVoices F w = Inr arr
                \<and> m \<in> set arr \<and> activeVoiceId w = Some (m_id m))"
  proof (cases "getActiveVoice F w = Inr None")
    case True
    then show ?thesis by simp
  next
    case False
    then obtain m where m: "\<not> falsy (activeVoiceId w)"
        "List.find (\<lambda>a. Some (m_id a) = activeVoiceId w) (parseVoices (downloadedVoices w)) = Some m"
      using getActiveVoice_eq [OF assms, of w] by (auto split: if_splits)
    from m(2) have "m \<in> set (parseVoices (downloadedVoices w))" "activeVoiceId w = Some (m_id m)"
      by (auto simp add: find_Some_iff in_set_conv_nth)
    with m show ?thesis
      by (simp add: getActiveVoice_eq [OF assms] listDownloadedVoices_eq [OF assms])
  qed
next
  fix i
  assume "activeVoiceId w = Some i \<and> i \<notin> m_id ` set (parseVoices (downloadedVoices w))"
  then have "List.find (\<lambda>a. Some (m_id a) = activeVoiceId w) (parseVoices (downloadedVoices w)) = None"
    by (auto simp add: find_None_iff)
  then show "getActiveVoice F w = Inr None"
    by (simp add: getActiveVoice_eq [OF assms])
qed

theorem getActiveVoice_in_index_witness:
  "\<not> kvGetFails okFiles
   \<and> getActiveVoice okFiles deepStore = Inr (Some deepMeta)
   \<and> listDownloadedVoices okFiles deepStore = Inr [deepMeta]
   \<and> activeVoiceId deepStore = Some (m_id deepMeta)
   \<and> activeVoiceId danglingStore = Some ''bright''
   \<and> ''bright'' \<notin> m_id ` set (parseVoices (downloadedVoices danglingStore))
   \<and> getActiveVoice okFiles danglingStore = Inr None"
proof -
  have ok: "\<not> kvGetFails okFiles"
    by (simp add: okFiles_def)
  have d: "activeVoiceId danglingStore = Some ''bright''"
    "''bright'' \<notin> m_id ` set (parseVoices (downloadedVoices danglingStore))"
    by (simp_all add: danglingStore_def deepStore_def parseVoices_def deepMeta_def)
  have a: "getActiveVoice okFiles deepStore = Inr (Some deepMeta)"
    by (simp add: getActiveVoice_eq [OF ok] deepStore_def falsy_def parseVoices_def deepMeta_def)
  have l: "listDownloadedVoices okFiles deepStore = Inr [deepMeta]"
    by (simp add: listDownloadedVoices_eq [OF ok] deepStore_def parseVoices_def)
  have i: "activeVoiceId deepStore = Some (m_id deepMeta)"
    by (simp add: deepStore_def deepMeta_def)
  show ?thesis
    using getActiveVoice_in_index [OF ok, of danglingStore] ok d a l i by blast
qed

lemma downloadRemoteVoice_returns:
  "\<exists>r. fst (downloadRemoteVoice F remote w) = Inr r"
  by (simp add: downloadRemoteVoice_def split: prod.splits sum.splits)

lemma downloadRemoteVoice_null_keeps_index:
  "fst (downloadRemoteVoice F remote w) = Inr None \<Longrightarrow>
   downloadedVoices (snd (downloadRemoteVoice F remote w)) = downloadedVoices w
   \<and> activeVoiceId (snd (downloadRemoteVoice F remote w)) = activeVoiceId w"
  by (auto simp add: downloadRemoteVoice_def downloadRemoteVoiceBody_def Let_def awaitThen_def
      returns_def makeDirectoryAsync_def deleteAsync_def downloadAsync_def getDownloadedItem_def
      setDownloadedItem_def split: prod.splits sum.splits if_splits)

text \<open>
  C8. When the download of the remote voice's URL rejects, \<^verbatim>\<open>downloadRemoteVoice\<close>
  returns null instead of throwing and the stored index of downloaded voices is what it
  was, so \<^verbatim>\<open>listDownloadedVoices()\<close> gives the same list as before the call.
\<close>

theorem downloadRemoteVoice_failure:
  assumes "downloadFails F (r_previewUrl remote)"
  shows "fst (downloadRemoteVoice F remote w) = Inr None
     \<and> downloadedVoices (snd (downloadRemoteVoice F remote w)) = downloadedVoices w
     \<and> listDownloadedVoices F (snd (downloadRemoteVoice F remote w)) = listDownloadedVoices F w"
proof -
  have n: "fst (downloadRemoteVoice F remote w) = Inr None"
    using assms
    by (simp add: downloadRemoteVoice_def downloadRemoteVoiceBody_def Let_def awaitThen_def
        makeDirectoryAsync_def deleteAsync_def downloadAsync_def split: prod.splits sum.splits)
  from downloadRemoteVoice_null_keeps_index [OF n]
  have k: "downloadedVoices (snd (downloadRemoteVoice F remote w)) = downloadedVoices w"
    by simp
  then have "listDownloadedVoices F (snd (downloadRemoteVoice F remote w)) = listDownloadedVoices F w"
    by (simp add: listDownloadedVoices_def getDownloadedItem_def)
  with n k show ?thesis by simp
qed

theorem downloadRemoteVoice_failure_witness:
  "downloadFails offline (r_previewUrl remoteA)
   \<and> fst (downloadRemoteVoice offline remoteA deepStore) = Inr None
   \<and> listDownloadedVoices offline (snd (downloadRemoteVoice offline remoteA deepStore)) = Inr [deepMeta]"
proof -
  have f: "downloadFails offline (r_previewUrl remoteA)" "\<not> kvGetFails offline"
    by (simp_all add: offline_def okFiles_def)
  have l: "listDownloadedVoices offline deepStore = Inr [deepMeta]"
    by (simp add: listDownloadedVoices_eq [OF f(2)] deepStore_def parseVoices_def)
  show ?thesis
    using downloadRemoteVoice_failure [OF f(1), of deepStore] f(1) l by simp
qed

section \<open>Properties of playback\<close>

lemma playAdhan3_finishes:
  "at (fst (runAlone 6 A S silentMode \<lparr>at = Start, voicePathArg = vp, prayerNameArg = pn\<rparr> p)) = Done"
  by (simp add: eval_nat_numeral resume_def afterUnload_def
      split: option.splits sum.splits prod.splits)

lemma playAdhan3_eq:
  "playAdhan3 A S silentMode vp pn p =
     (if silentMode then p
      else let p0 = unloadPrevious A p
           in case (case vp of None \<Rightarrow> getAdhanUrlForPrayer S (orDefault pn ''dhuhr'')
                    | Some u \<Rightarrow> if u = [] then getAdhanUrlForPrayer S (orDefault pn ''dhuhr'') else Inr u) of
                Inl e \<Rightarrow> p0
              | Inr u \<Rightarrow>
                  if createFails A (Uri u) then p0
                  else let p1 = (createSound (Uri u) p0)\<lparr>soundRef := Some (nextSound p0)\<rparr>
                       in if volumeFails A \<or> playFails A (Uri u) then p1
                          else p1\<lparr>playing := playing p1 @ [nextSound p0]\<rparr>)"
  by (simp add: playAdhan3_def eval_nat_numeral resume_def afterUnload_def unloadPrevious_def Let_def
      split: option.splits sum.splits prod.splits)

lemma heldByRef_single: "heldByRef p \<Longrightarrow> length (sounds p) \<le> 1"
proof -
  assume h: "heldByRef p"
  show ?thesis
  proof (cases "sounds p")
    case Nil
    then show ?thesis by simp
  next
    case (Cons s ss)
    show ?thesis
    proof (cases ss)
      case Nil
      with Cons show ?thesis by simp
    next
      case (Cons s' ss')
      with \<open>sounds p = s # ss\<close> h show ?thesis
        by (auto simp add: heldByRef_def)
    qed
  qed
qed

lemma unloadPrevious_releases:
  assumes "heldByRef p" and "\<forall>h. \<not> unloadFails A h"
  shows "sounds (unloadPrevious A p) = [] \<and> soundRef (unloadPrevious A p) = None
         \<and> nextSound (unloadPrevious A p) = nextSound p"
proof (cases "soundRef p")
  case None
  with assms(1) have "sounds p = []"
    by (cases "sounds p") (auto simp add: heldByRef_def)
  with None show ?thesis by (simp add: unloadPrevious_def)
next
  case (Some h)
  with assms(1) have "filter (\<lambda>s. fst s \<noteq> h) (sounds p) = []"
    by (auto simp add: heldByRef_def list_all_iff filter_empty_conv)
  with Some assms(2) show ?thesis
    by (simp add: unloadPrevious_def unloadAsync_def)
qed

lemma playAdhan3_sequential:
  assumes "heldByRef p" and "\<forall>h. \<not> unloadFails A h"
  shows "heldByRef (playAdhan3 A S silentMode vp pn p)"
  using assms(1) unloadPrevious_releases [OF assms]
  by (auto simp add: playAdhan3_eq Let_def heldByRef_def createSound_def
      split: option.splits sum.splits)

lemma playAdhan1_replay_failure:
  "playAdhan1 cannotPlay noListing (Some ''https://www.islamcan.com/audio/adhan/azan1.mp3'') idlePlayer
   = \<lparr>soundRef = Some 1,
      sounds = [(0, Uri ''https://www.islamcan.com/audio/adhan/azan1.mp3''), (1, BundledAsset)],
      playing = [1], nextSound = 2\<rparr>"
  by (simp add: playAdhan1_def unloadPrevious_def idlePlayer_def createAndReplay_def cannotPlay_def
      okAudio_def createSound_def Let_def)

lemma playAdhan1_no_path_plays_bundled:
  assumes "\<not> createFails A BundledAsset" and "\<not> playFails A BundledAsset"
  shows "playAdhan1 A L None idlePlayer
         = \<lparr>soundRef = Some 0, sounds = [(0, BundledAsset)], playing = [0], nextSound = 1\<rparr>"
  using assms
  by (simp add: playAdhan1_def unloadPrevious_def idlePlayer_def createAndReplay_def
      createSound_def Let_def)

text \<open>
  C9, at the failing input. A notification whose payload carries a voice path is delivered
  in the foreground and tapped: two invocations of \<^verbatim>\<open>playAdhan\<close> are in flight. The
  first runs up to its \<^verbatim>\<open>await Audio.Sound.createAsync\<close>; the second starts while
  \<^verbatim>\<open>soundRef.current\<close> is still null, so it unloads nothing; both then create and start
  their sound. At the end two sounds are held and playing, and the first one is no longer
  reachable through \<^verbatim>\<open>soundRef\<close>.
\<close>

theorem playAdhan_fire_and_tap_two_handles:
  "runSchedule okAudio freshSelector False [0, 1, 0, 0, 0, 1, 1, 1] ([fired, fired], idlePlayer)
   = ([fired\<lparr>at := Done\<rparr>, fired\<lparr>at := Done\<rparr>],
      \<lparr>soundRef = Some 1,
       sounds = [(0, Uri ''https://www.islamcan.com/audio/adhan/azan1.mp3''),
                 (1, Uri ''https://www.islamcan.com/audio/adhan/azan1.mp3'')],
       playing = [0, 1], nextSound = 2\<rparr>)"
  by (simp add: runSchedule_def resumeAt_def resume_def fired_def idlePlayer_def okAudio_def
      afterUnload_def createSound_def)

section \<open>Install, activate, resolve, remove\<close>

lemma find_after_filter:
  "P m \<Longrightarrow> List.find P (filter (\<lambda>a. \<not> P a) xs @ [m]) = Some m"
  by (induction xs) simp_all

lemma downloadVoice_reliable:
  assumes "vreliable F"
  shows "downloadVoice F v w =
     (Inr (Some \<lparr>m_id = v, m_name = v, m_path = Some (voiceFile w v), m_variant = Some v\<rparr>),
      w\<lparr>fsFiles := insert (voiceFile w v)
                      (insert (docDirectory w @ ''adhan-synthetic-'' @ v @ ''.wav'') (fsFiles w)),
        downloadedVoices := Some (filter (\<lambda>a. m_id a \<noteq> v) (parseVoices (downloadedVoices w))
           @ [\<lparr>m_id = v, m_name = v, m_path = Some (voiceFile w v), m_variant = Some v\<rparr>])\<rparr>)"
  using assms
  by (simp add: downloadVoice_def downloadVoiceBody_def Let_def awaitThen_def returns_def
      makeDirectoryAsync_def generateSyntheticAdhan_def writeAsStringAsync_def copyAsync_def
      getDownloadedItem_def setDownloadedItem_def vreliable_def voiceFile_def)

lemma removeDownloadedVoice_reliable:
  assumes "vreliable F"
  shows "removeDownloadedVoice F v w =
     (Inr (),
      w\<lparr>downloadedVoices := Some (filter (\<lambda>a. m_id a \<noteq> v) (parseVoices (downloadedVoices w))),
        fsFiles := fsFiles w - {voiceFile w v},
        activeVoiceId := (if activeVoiceId w = Some v then None else activeVoiceId w)\<rparr>)"
  using assms
  by (auto simp add: removeDownloadedVoice_def Let_def awaitThen_def returns_def fileExists_def
      deleteAsync_def getDownloadedItem_def setDownloadedItem_def getActiveItem_def
      removeActiveItem_def vreliable_def voiceFile_def intro!: vstore.equality)

text \<open>
  C7. On a file system and storage where no call rejects: after \<^verbatim>\<open>downloadVoice('deep')\<close>
  and \<^verbatim>\<open>setActiveVoice('deep')\<close>, \<^verbatim>\<open>getActiveVoice\<close> returns the installed record, whose
  path is the installed file \<^verbatim>\<open>voices/voice-deep.wav\<close>, and that file exists. After
  \<^verbatim>\<open>removeDownloadedVoice('deep')\<close> the file is gone, no record of the index has the id,
  \<^verbatim>\<open>getActiveVoice\<close> returns null, so the resolved voice path is undefined and
  \<^verbatim>\<open>playAdhan\<close> plays the bundled asset whenever that asset loads: the deleted path is
  never handed to the player.
\<close>

theorem install_activate_resolve_remove:
  assumes "vreliable F"
  shows "\<exists>meta w1 w2 w3.
      downloadVoice F ''deep'' w = (Inr (Some meta), w1)
    \<and> m_id meta = ''deep'' \<and> m_path meta = Some (voiceFile w ''deep'')
    \<and> setActiveVoice F (Some ''deep'') w1 = (Inr (), w2)
    \<and> getActiveVoice F w2 = Inr (Some meta)
    \<and> optionalPath (getActiveVoice F w2) = Some (voiceFile w ''deep'')
    \<and> voiceFile w ''deep'' \<in> fsFiles w2
    \<and> removeDownloadedVoice F ''deep'' w2 = (Inr (), w3)
    \<and> voiceFile w ''deep'' \<notin> fsFiles w3
    \<and> list_all (\<lambda>m. m_id m \<noteq> ''deep'') (parseVoices (downloadedVoices w3))
    \<and> getActiveVoice F w3 = Inr None
    \<and> optionalPath (getActiveVoice F w3) = None
    \<and> (\<forall>A L. \<not> createFails A BundledAsset \<and> \<not> playFails A BundledAsset \<longrightarrow>
          sounds (playAdhan1 A L (optionalPath (getActiveVoice F w3)) idlePlayer) = [(0, BundledAsset)])"
proof -
  let ?meta = "\<lparr>m_id = ''deep'', m_name = ''deep'', m_path = Some (voiceFile w ''deep''),
                 m_variant = Some ''deep''\<rparr>"
  let ?arr = "filter (\<lambda>a. m_id a \<noteq> ''deep'') (parseVoices (downloadedVoices w)) @ [?meta]"
  let ?w1 = "w\<lparr>fsFiles := insert (voiceFile w ''deep'')
                      (insert (docDirectory w @ ''adhan-synthetic-'' @ ''deep'' @ ''.wav'') (fsFiles w)),
        downloadedVoices := Some ?arr\<rparr>"
  let ?w2 = "?w1\<lparr>activeVoiceId := Some ''deep''\<rparr>"
  let ?w3 = "?w2\<lparr>downloadedVoices := Some (filter (\<lambda>a. m_id a \<noteq> ''deep'') (parseVoices (downloadedVoices ?w2))),
        fsFiles := fsFiles ?w2 - {voiceFile ?w2 ''deep''},
        activeVoiceId := (if activeVoiceId ?w2 = Some ''deep'' then None else activeVoiceId ?w2)\<rparr>"
  have kv: "\<not> kvGetFails F" "\<not> kvSetFails F"
    using assms by (simp_all add: vreliable_def)
  have d: "downloadVoice F ''deep'' w = (Inr (Some ?meta), ?w1)"
    by (rule downloadVoice_reliable [OF assms])
  have a: "setActiveVoice F (Some ''deep'') ?w1 = (Inr (), ?w2)"
    using kv by (simp add: setActiveVoice_def setActiveItem_def)
  have fnd: "List.find (\<lambda>a. m_id a = ''deep'') ?arr = Some ?meta"
    using find_after_filter [of "\<lambda>a. m_id a = ''deep''" ?meta "parseVoices (downloadedVoices w)"]
    by simp
  have g2: "getActiveVoice F ?w2 = Inr (Some ?meta)"
    using fnd by (simp add: getActiveVoice_eq [OF kv(1)] falsy_def parseVoices_def)
  have vf: "voiceFile ?w2 ''deep'' = voiceFile w ''deep''"
    by (simp add: voiceFile_def)
  have r: "removeDownloadedVoice F ''deep'' ?w2 = (Inr (), ?w3)"
    by (rule removeDownloadedVoice_reliable [OF assms])
  have g3: "getActiveVoice F ?w3 = Inr None"
    by (simp add: getActiveVoice_eq [OF kv(1)] falsy_def)
  have gone: "voiceFile w ''deep'' \<notin> fsFiles ?w3"
    by (simp add: voiceFile_def)
  have idx: "list_all (\<lambda>m. m_id m \<noteq> ''deep'') (parseVoices (downloadedVoices ?w3))"
    by (simp add: parseVoices_def list_all_iff)
  have play: "\<forall>A L. \<not> createFails A BundledAsset \<and> \<not> playFails A BundledAsset \<longrightarrow>
          sounds (playAdhan1 A L (optionalPath (getActiveVoice F ?w3)) idlePlayer) = [(0, BundledAsset)]"
    by (simp only: g3) (simp add: optionalPath_def playAdhan1_no_path_plays_bundled)
  show ?thesis
    apply (rule exI [of _ ?meta], rule exI [of _ ?w1], rule exI [of _ ?w2], rule exI [of _ ?w3])
    apply (intro conjI)
    apply (rule d)
    apply simp
    apply simp
    apply (rule a)
    apply (rule g2)
    apply (simp only: g2, simp add: optionalPath_def)
    apply simp
    apply (rule r)
    apply (rule gone)
    apply (rule idx)
    apply (rule g3)
    apply (simp only: g3, simp add: optionalPath_def)
    apply (rule play)
    done
qed

theorem install_activate_resolve_remove_witness:
  "vreliable okFiles \<and> \<not> createFails okAudio BundledAsset \<and> \<not> playFails okAudio BundledAsset
   \<and> (\<exists>meta w1 w2 w3.
      downloadVoice okFiles ''deep'' emptyStore = (Inr (Some meta), w1)
    \<and> m_path meta = Some ''file:///data/voices/voice-deep.wav''
    \<and> setActiveVoice okFiles (Some ''deep'') w1 = (Inr (), w2)
    \<and> getActiveVoice okFiles w2 = Inr (Some meta)
    \<and> ''file:///data/voices/voice-deep.wav'' \<in> fsFiles w2
    \<and> removeDownloadedVoice okFiles ''deep'' w2 = (Inr (), w3)
    \<and> ''file:///data/voices/voice-deep.wav'' \<notin> fsFiles w3
    \<and> getActiveVoice okFiles w3 = Inr None
    \<and> sounds (playAdhan1 okAudio noListing (optionalPath (getActiveVoice okFiles w3)) idlePlayer)
        = [(0, BundledAsset)])"
proof -
  have ok: "vreliable okFiles"
    by (simp add: vreliable_def okFiles_def)
  have au: "\<not> createFails okAudio BundledAsset \<and> \<not> playFails okAudio BundledAsset"
    by (simp add: okAudio_def)
  have vf: "voiceFile emptyStore ''deep'' = ''file:///data/voices/voice-deep.wav''"
    by (simp add: voiceFile_def emptyStore_def)
  show ?thesis
    using install_activate_resolve_remove [OF ok, of emptyStore] ok au
    unfolding vf by blast
qed

end

